theory Spec2Isabelle
  imports Main
begin

section \<open>Tokens, blocks and collaborators\<close>

text \<open>
  The parser of \<^verbatim>\<open>src/parser/internal.ts\<close> walks the token tree of the
  \<^verbatim>\<open>marked\<close> lexer. A token is a tagged union; the datatype keeps, for every
  kind, the fields the parser reads. Field order: \<open>Link href title text tokens\<close>,
  \<open>Em text tokens\<close>, \<open>Strong text tokens\<close>, \<open>Del text tokens\<close>,
  \<open>Image href title text\<close>, \<open>Codespan raw text\<close>, \<open>Text raw text tokens?\<close>,
  \<open>HTML raw text\<close>, \<open>Heading text tokens\<close>, \<open>Paragraph text tokens\<close>,
  \<open>Code text\<close>, \<open>Blockquote text tokens\<close>, \<open>ListTok ordered items\<close> with an
  item \<open>(task, checked?, tokens)\<close>, \<open>TableTok header rows align\<close> with a cell given
  by its \<open>tokens\<close>. \<open>Space\<close> stands for every kind the parser has no case for.
\<close>

datatype align = ALeft | ACenter | ARight

datatype token =
    Link string "string option" string "token list"
  | Em string "token list"
  | Strong string "token list"
  | Del string "token list"
  | Br
  | Image string "string option" string
  | Codespan string string
  | Text string string "token list option"
  | HTML string string
  | Heading string "token list"
  | Paragraph string "token list"
  | Code string
  | Blockquote string "token list"
  | ListTok bool "(bool \<times> bool option \<times> token list) list"
  | TableTok "token list list" "token list list list" "align option list"
  | Hr
  | Space

datatype error = RecursionLimitError | ValidationError | ParseError

datatype style = Bold | Italic | Strike | CodeStyle

text \<open>A rich-text element is \<open>{type:'text', text, style?}\<close> or \<open>{type:'link', text, url}\<close>.\<close>

datatype richElem = TextEl string "style option" | LinkEl string string

datatype tableCell = RawText string | RichText "richElem list"

text \<open>A column setting is \<open>{align?: 'center' | 'right'}\<close>; \<open>{}\<close> is \<open>ColumnSetting None\<close>.\<close>

datatype columnSetting = ColumnSetting "align option"

datatype listStyle = Bullet | Ordered

datatype block =
    Section string
  | Header string
  | Divider
  | ImageB string string "string option"
  | FileB string
  | VideoB string string string string
  | TableB "tableCell list list" "columnSetting list option"
  | RichTextList "richElem list list" listStyle nat
  | RichTextCode string
  | RichTextQuote "richElem list"

text \<open>The result of the XML parser: text, an object with its keys in order, or an array.\<close>

datatype xml = XText string | XElem "(string \<times> xml) list" | XList "xml list"

text \<open>
  The collaborators of the parser that live outside \<^verbatim>\<open>src/parser/internal.ts\<close>
  (\<^verbatim>\<open>validateUrl\<close> and the ceiling of \<^verbatim>\<open>src/validation.ts\<close>, the builders of
  \<^verbatim>\<open>src/slack.ts\<close> that can throw, and the \<^verbatim>\<open>fast-xml-parser\<close> library) are
  parameters: every definition below takes them in a record, and every theorem holds
  for each choice of them. \<open>slackImage\<close>, \<open>slackFile\<close>, \<open>slackVideo\<close> and
  \<open>slackTable\<close> are the builders \<^verbatim>\<open>image\<close>, \<^verbatim>\<open>file\<close>, \<^verbatim>\<open>video\<close> and
  \<^verbatim>\<open>table\<close>; a builder returns \<open>Inl\<close> where it throws. The warnings that the parser
  logs are not part of the model.
\<close>

record env =
  validateUrl :: "string \<Rightarrow> bool"
  maxRecursionDepth :: int
  slackImage :: "string \<Rightarrow> string \<Rightarrow> string option \<Rightarrow> error + block"
  slackFile :: "string \<Rightarrow> error + block"
  slackVideo :: "string \<Rightarrow> string \<Rightarrow> string \<Rightarrow> string \<Rightarrow> error + block"
  slackTable :: "tableCell list list \<Rightarrow> columnSetting list option \<Rightarrow> error + block"
  xmlParse :: "string \<Rightarrow> error + xml"

text \<open>
  Modelled from the spec: \<^verbatim>\<open>validateRecursionDepth\<close> of \<^verbatim>\<open>src/validation.ts\<close> is
  missing. The spec says that exceeding the fixed nesting ceiling fails with a
  recursion-limit error and that nesting exactly at the limit succeeds.
\<close>

definition validateRecursionDepth :: "env \<Rightarrow> int \<Rightarrow> error + unit" where
  "validateRecursionDepth e depth =
     (if depth > maxRecursionDepth e then Inl RecursionLimitError else Inr ())"

text \<open>
  Modelled from the spec: \<^verbatim>\<open>safeTruncate\<close> and the builder \<^verbatim>\<open>section\<close> of
  \<^verbatim>\<open>src/slack.ts\<close> (here \<open>slackSection\<close>) are missing. The spec gives a Section
  one styled-text field, truncated by the builder to 3000 characters; the tests expect
  the text unchanged below the ceiling and its first characters above it.
\<close>

definition safeTruncate :: "string \<Rightarrow> nat \<Rightarrow> string" where
  "safeTruncate s n = take n s"

definition slackSection :: "string \<Rightarrow> block" where
  "slackSection content = Section (safeTruncate content 3000)"

section \<open>File-link classification\<close>

definition FILE_EXTENSIONS :: "string list" where
  "FILE_EXTENSIONS =
     [''pdf'', ''doc'', ''docx'', ''xls'', ''xlsx'', ''ppt'', ''pptx'', ''zip'', ''rar'',
      ''7z'', ''tar'', ''gz'', ''txt'', ''csv'', ''json'', ''xml'', ''jpg'', ''jpeg'',
      ''png'', ''gif'', ''bmp'', ''svg'']"

text \<open>\<^verbatim>\<open>s.split(c)\<close> for a one-character separator: never empty.\<close>

fun splitOn :: "char \<Rightarrow> string \<Rightarrow> string list" where
  "splitOn c [] = [[]]"
| "splitOn c (x # xs) =
     (if x = c then [] # splitOn c xs
      else (case splitOn c xs of [] \<Rightarrow> [[x]] | h # t \<Rightarrow> (x # h) # t))"

definition isAlnum :: "char \<Rightarrow> bool" where
  "isAlnum c = (let n = (of_char c :: nat) in
     (48 \<le> n \<and> n \<le> 57) \<or> (65 \<le> n \<and> n \<le> 90) \<or> (97 \<le> n \<and> n \<le> 122))"

definition toLowerCase :: "string \<Rightarrow> string" where
  "toLowerCase s =
     map (\<lambda>c. let n = (of_char c :: nat) in
                if 65 \<le> n \<and> n \<le> 90 then char_of (n + 32) else c) s"

text \<open>
  The match of \<^verbatim>\<open>/\.([a-zA-Z0-9]+)$/\<close>: the leftmost dot whose rest, up to the end
  of the string, is a non-empty run of letters and digits; the result is group 1.
\<close>

fun matchExtension :: "string \<Rightarrow> string option" where
  "matchExtension [] = None"
| "matchExtension (c # cs) =
     (if c = CHR ''.'' \<and> cs \<noteq> [] \<and> list_all isAlnum cs then Some cs
      else matchExtension cs)"

definition pathnameOf :: "string \<Rightarrow> string" where
  "pathnameOf href = hd (splitOn CHR ''#'' (hd (splitOn CHR ''?'' href)))"

definition detectFileExtension :: "string \<Rightarrow> string option" where
  "detectFileExtension href =
     (case matchExtension (pathnameOf href) of
        Some m \<Rightarrow> Some (toLowerCase m)
      | None \<Rightarrow> None)"

definition isFileType :: "string option \<Rightarrow> bool" where
  "isFileType extension =
     (case extension of None \<Rightarrow> False | Some x \<Rightarrow> x \<in> set FILE_EXTENSIONS)"

definition extractFileName :: "string \<Rightarrow> string" where
  "extractFileName href =
     (let seg = last (splitOn CHR ''/'' (pathnameOf href))
      in if seg = [] then ''Document'' else seg)"

section \<open>Plain text and the phrase renderer\<close>

fun parsePlainText :: "token \<Rightarrow> string list"
  and parsePlainTextAll :: "token list \<Rightarrow> string list" where
  "parsePlainText (Link href title text tokens) = parsePlainTextAll tokens"
| "parsePlainText (Em text tokens) = parsePlainTextAll tokens"
| "parsePlainText (Strong text tokens) = parsePlainTextAll tokens"
| "parsePlainText (Del text tokens) = parsePlainTextAll tokens"
| "parsePlainText Br = []"
| "parsePlainText (Image href title text) =
     [case title of Some t \<Rightarrow> t | None \<Rightarrow> href]"
| "parsePlainText (Codespan raw text) = [raw]"
| "parsePlainText (Text raw text tokens) = [raw]"
| "parsePlainText (HTML raw text) = [raw]"
| "parsePlainText _ = []"
| "parsePlainTextAll [] = []"
| "parsePlainTextAll (child # rest) = parsePlainText child @ parsePlainTextAll rest"

text \<open>
  The module-level counter \<^verbatim>\<open>recursionDepth\<close> is threaded through: a computation
  takes the counter and returns its result, \<open>Inl\<close> for a thrown error, with the counter
  as the computation leaves it. \<open>leave\<close> is the \<^verbatim>\<open>finally { recursionDepth-- }\<close>.
\<close>

type_synonym 'a result = "(error + 'a) \<times> int"

definition leave :: "'a result \<Rightarrow> 'a result" where
  "leave r = (fst r, snd r - 1)"

text \<open>\<^verbatim>\<open>pre + children.join('') + post\<close>, when rendering the children did not throw.\<close>

definition joined :: "string \<Rightarrow> string \<Rightarrow> string list result \<Rightarrow> string result" where
  "joined pre post r =
     (case fst r of Inl err \<Rightarrow> (Inl err, snd r)
      | Inr parts \<Rightarrow> (Inr (pre @ concat parts @ post), snd r))"

fun parseMrkdwn :: "env \<Rightarrow> token \<Rightarrow> int \<Rightarrow> string result"
  and parseMrkdwnAll :: "env \<Rightarrow> token list \<Rightarrow> int \<Rightarrow> string list result" where
  "parseMrkdwn e (Link href title text tokens) recursionDepth =
     leave (case validateRecursionDepth e (recursionDepth + 1) of
        Inl err \<Rightarrow> (Inl err, recursionDepth + 1)
      | Inr u \<Rightarrow>
          (if href \<noteq> [] \<and> validateUrl e href
           then joined (''<'' @ href @ ''|'') ''> ''
                  (parseMrkdwnAll e tokens (recursionDepth + 1))
           else joined [] [] (parseMrkdwnAll e tokens (recursionDepth + 1))))"
| "parseMrkdwn e (Em text tokens) recursionDepth =
     leave (case validateRecursionDepth e (recursionDepth + 1) of
        Inl err \<Rightarrow> (Inl err, recursionDepth + 1)
      | Inr u \<Rightarrow> joined ''_'' ''_'' (parseMrkdwnAll e tokens (recursionDepth + 1)))"
| "parseMrkdwn e (Codespan raw text) recursionDepth =
     leave (case validateRecursionDepth e (recursionDepth + 1) of
        Inl err \<Rightarrow> (Inl err, recursionDepth + 1)
      | Inr u \<Rightarrow> (Inr (''`'' @ text @ ''`''), recursionDepth + 1))"
| "parseMrkdwn e (Strong text tokens) recursionDepth =
     leave (case validateRecursionDepth e (recursionDepth + 1) of
        Inl err \<Rightarrow> (Inl err, recursionDepth + 1)
      | Inr u \<Rightarrow> joined ''*'' ''*'' (parseMrkdwnAll e tokens (recursionDepth + 1)))"
| "parseMrkdwn e (Text raw text tokens) recursionDepth =
     leave (case validateRecursionDepth e (recursionDepth + 1) of
        Inl err \<Rightarrow> (Inl err, recursionDepth + 1)
      | Inr u \<Rightarrow> (Inr text, recursionDepth + 1))"
| "parseMrkdwn e (Del text tokens) recursionDepth =
     leave (case validateRecursionDepth e (recursionDepth + 1) of
        Inl err \<Rightarrow> (Inl err, recursionDepth + 1)
      | Inr u \<Rightarrow> joined ''~'' ''~'' (parseMrkdwnAll e tokens (recursionDepth + 1)))"
| "parseMrkdwn e _ recursionDepth =
     leave (case validateRecursionDepth e (recursionDepth + 1) of
        Inl err \<Rightarrow> (Inl err, recursionDepth + 1)
      | Inr u \<Rightarrow> (Inr [], recursionDepth + 1))"
| "parseMrkdwnAll e [] recursionDepth = (Inr [], recursionDepth)"
| "parseMrkdwnAll e (child # rest) recursionDepth =
     (case parseMrkdwn e child recursionDepth of
        (Inl err, d) \<Rightarrow> (Inl err, d)
      | (Inr s, d) \<Rightarrow>
          (case parseMrkdwnAll e rest d of
             (Inl err, d') \<Rightarrow> (Inl err, d')
           | (Inr ss, d') \<Rightarrow> (Inr (s # ss), d')))"

section \<open>The inline accumulator\<close>

definition isSectionBlock :: "block \<Rightarrow> bool" where
  "isSectionBlock b = (case b of Section t \<Rightarrow> True | _ \<Rightarrow> False)"

text \<open>
  The accumulator is a JavaScript array mutated in place; the model returns the new
  list. \<^verbatim>\<open>last.text.text += content\<close> replaces the last element, a Section, by the
  Section with the longer text; \<^verbatim>\<open>push\<close> appends. A Section always carries its text
  object, so the test \<^verbatim>\<open>last.text\<close> holds for it.
\<close>

definition addMrkdwn :: "string \<Rightarrow> block list \<Rightarrow> block list" where
  "addMrkdwn content accumulator =
     (if accumulator \<noteq> [] \<and> isSectionBlock (last accumulator)
      then (case last accumulator of
              Section t \<Rightarrow> butlast accumulator @ [Section (t @ content)]
            | b \<Rightarrow> accumulator)
      else accumulator @ [slackSection content])"

text \<open>\<^verbatim>\<open>const text = parseMrkdwn(element); addMrkdwn(text, accumulator)\<close>.\<close>

definition addRendered :: "env \<Rightarrow> token \<Rightarrow> block list \<Rightarrow> int \<Rightarrow> block list result" where
  "addRendered e element accumulator recursionDepth =
     (case parseMrkdwn e element recursionDepth of
        (Inl err, d) \<Rightarrow> (Inl err, d)
      | (Inr content, d) \<Rightarrow> (Inr (addMrkdwn content accumulator), d))"

definition parsePhrasingContent ::
    "env \<Rightarrow> token \<Rightarrow> block list \<Rightarrow> int \<Rightarrow> block list result" where
  "parsePhrasingContent e element accumulator recursionDepth =
     (case element of
        Image href title text \<Rightarrow>
          (case slackImage e href
                  (if text \<noteq> [] then text
                   else (case title of
                           Some t \<Rightarrow> if t \<noteq> [] then t else href
                         | None \<Rightarrow> href))
                  title of
             Inr imageBlock \<Rightarrow> (Inr (accumulator @ [imageBlock]), recursionDepth)
           | Inl err \<Rightarrow> (Inr accumulator, recursionDepth))
      | Link href title text tokens \<Rightarrow>
          (let linkText = concat (parsePlainTextAll tokens);
               urlExtension = detectFileExtension href;
               textExtension = detectFileExtension linkText;
               fileExtension = (case urlExtension of Some x \<Rightarrow> Some x | None \<Rightarrow> textExtension)
           in if isFileType fileExtension
              then (case slackFile e (if textExtension \<noteq> None
                                      then extractFileName linkText
                                      else extractFileName href) of
                      Inr fileBlock \<Rightarrow> (Inr (accumulator @ [fileBlock]), recursionDepth)
                    | Inl err \<Rightarrow> addRendered e element accumulator recursionDepth)
              else addRendered e element accumulator recursionDepth)
      | _ \<Rightarrow> addRendered e element accumulator recursionDepth)"

text \<open>The \<^verbatim>\<open>reduce\<close> of \<^verbatim>\<open>parseParagraph\<close>, from the accumulator it has reached.\<close>

fun reducePhrasing :: "env \<Rightarrow> token list \<Rightarrow> block list \<Rightarrow> int \<Rightarrow> block list result" where
  "reducePhrasing e [] accumulator recursionDepth = (Inr accumulator, recursionDepth)"
| "reducePhrasing e (child # rest) accumulator recursionDepth =
     (case parsePhrasingContent e child accumulator recursionDepth of
        (Inl err, d) \<Rightarrow> (Inl err, d)
      | (Inr accumulator', d) \<Rightarrow> reducePhrasing e rest accumulator' d)"

definition parseParagraph :: "env \<Rightarrow> token list \<Rightarrow> int \<Rightarrow> block list result" where
  "parseParagraph e tokens recursionDepth = reducePhrasing e tokens [] recursionDepth"

section \<open>Headings, code, rich elements, lists and tables\<close>

text \<open>
  Modelled from the spec: the builders \<^verbatim>\<open>header\<close>, \<^verbatim>\<open>divider\<close>, \<^verbatim>\<open>richTextCode\<close>,
  \<^verbatim>\<open>richTextList\<close> and \<^verbatim>\<open>richTextQuote\<close> of \<^verbatim>\<open>src/slack.ts\<close> are missing. The spec
  gives a Header one plain-text field truncated to 150 characters, a Divider no field,
  and a RichText block one list, quote or preformatted element.
\<close>

definition slackHeader :: "string \<Rightarrow> block" where
  "slackHeader content = Header (safeTruncate content 150)"

definition parseHeading :: "token list \<Rightarrow> block" where
  "parseHeading tokens = slackHeader (concat (parsePlainTextAll tokens))"

definition parseCode :: "string \<Rightarrow> block" where
  "parseCode text = RichTextCode text"

text \<open>The \<^verbatim>\<open>text\<close> property of a token, \<open>None\<close> where the kind has none.\<close>

fun tokenText :: "token \<Rightarrow> string option" where
  "tokenText (Link href title text tokens) = Some text"
| "tokenText (Em text tokens) = Some text"
| "tokenText (Strong text tokens) = Some text"
| "tokenText (Del text tokens) = Some text"
| "tokenText (Image href title text) = Some text"
| "tokenText (Codespan raw text) = Some text"
| "tokenText (Text raw text tokens) = Some text"
| "tokenText (HTML raw text) = Some text"
| "tokenText (Heading text tokens) = Some text"
| "tokenText (Paragraph text tokens) = Some text"
| "tokenText (Code text) = Some text"
| "tokenText (Blockquote text tokens) = Some text"
| "tokenText _ = None"

text \<open>\<^verbatim>\<open>tokens.map(t => t.text || '').join('')\<close>.\<close>

definition childrenText :: "token list \<Rightarrow> string" where
  "childrenText tokens =
     concat (map (\<lambda>t. case tokenText t of Some x \<Rightarrow> x | None \<Rightarrow> []) tokens)"

fun richTextElement :: "env \<Rightarrow> token \<Rightarrow> richElem list" where
  "richTextElement e (Text raw text tokens) = [TextEl text None]"
| "richTextElement e (Strong text tokens) = [TextEl (childrenText tokens) (Some Bold)]"
| "richTextElement e (Em text tokens) = [TextEl (childrenText tokens) (Some Italic)]"
| "richTextElement e (Del text tokens) = [TextEl (childrenText tokens) (Some Strike)]"
| "richTextElement e (Codespan raw text) = [TextEl text (Some CodeStyle)]"
| "richTextElement e (Link href title text tokens) =
     (if validateUrl e href then [LinkEl (childrenText tokens) href]
      else [TextEl (childrenText tokens) None])"
| "richTextElement e (Image href title text) =
     [TextEl (if text \<noteq> [] then text
              else (case title of
                      Some t \<Rightarrow> if t \<noteq> [] then t else ''[image]''
                    | None \<Rightarrow> ''[image]'')) None]"
| "richTextElement e token =
     (case tokenText token of Some x \<Rightarrow> [TextEl x None] | None \<Rightarrow> [])"

fun tokensToRichTextElements :: "env \<Rightarrow> token list \<Rightarrow> richElem list" where
  "tokensToRichTextElements e [] = []"
| "tokensToRichTextElements e (token # rest) =
     richTextElement e token @ tokensToRichTextElements e rest"

record listOptions =
  checkboxPrefix :: "(bool \<Rightarrow> string) option"

record parsingOptions =
  listOpts :: "listOptions option"

text \<open>The default prefixes are a check mark and a ballot box, each followed by a space.\<close>

definition defaultCheckboxPrefix :: "bool \<Rightarrow> string" where
  "defaultCheckboxPrefix checked =
     (if checked then [CHR 0xE2, CHR 0x9C, CHR 0x85, CHR '' '']
      else [CHR 0xE2, CHR 0x98, CHR 0x90, CHR '' ''])"

text \<open>The elements one child token of a list item contributes.\<close>

fun listItemToken :: "env \<Rightarrow> token \<Rightarrow> richElem list" where
  "listItemToken e (Text raw text tokens) =
     (case tokens of
        None \<Rightarrow> []
      | Some ts \<Rightarrow> if ts = [] then [] else tokensToRichTextElements e ts)"
| "listItemToken e (Paragraph text tokens) =
     (if tokens = [] then [] else tokensToRichTextElements e tokens)"
| "listItemToken e (Code text) = [TextEl ([CHR 0x0A] @ text @ [CHR 0x0A]) (Some CodeStyle)]"
| "listItemToken e _ = []"

definition listItem ::
    "env \<Rightarrow> (bool \<Rightarrow> string) \<Rightarrow> bool \<times> bool option \<times> token list \<Rightarrow> richElem list" where
  "listItem e prefix item =
     (case item of (task, checked, tokens) \<Rightarrow>
        (if task
         then [TextEl (prefix (case checked of Some c \<Rightarrow> c | None \<Rightarrow> False)) None]
         else [])
        @ concat (map (listItemToken e) tokens))"

definition parseList ::
    "env \<Rightarrow> bool \<Rightarrow> (bool \<times> bool option \<times> token list) list \<Rightarrow> listOptions option
       \<Rightarrow> nat \<Rightarrow> block" where
  "parseList e ordered items options indent =
     (let prefix = (case options of
                      None \<Rightarrow> defaultCheckboxPrefix
                    | Some opts \<Rightarrow>
                        (case checkboxPrefix opts of
                           None \<Rightarrow> defaultCheckboxPrefix
                         | Some f \<Rightarrow> f))
      in RichTextList (map (listItem e prefix) items)
           (if ordered then Ordered else Bullet) indent)"

definition hasComplexFormatting :: "token list \<Rightarrow> bool" where
  "hasComplexFormatting tokens =
     list_ex (\<lambda>t. case t of
                Strong x ts \<Rightarrow> True | Em x ts \<Rightarrow> True | Del x ts \<Rightarrow> True
              | Link h ti x ts \<Rightarrow> True | Codespan r x \<Rightarrow> True | _ \<Rightarrow> False) tokens"

definition parseTableCellToBlock :: "env \<Rightarrow> token list \<Rightarrow> tableCell" where
  "parseTableCellToBlock e tokens =
     (if hasComplexFormatting tokens
      then RichText (tokensToRichTextElements e tokens)
      else RawText (childrenText tokens))"

text \<open>
  The loop \<^verbatim>\<open>for (let i = 0; i < align.length && i < 20; i++)\<close> of
  \<^verbatim>\<open>parseTableRowsToBlocks\<close>, from index \<open>i\<close> and the settings pushed so far.
\<close>

function columnSettingsFrom ::
    "align option list \<Rightarrow> nat \<Rightarrow> columnSetting list \<Rightarrow> columnSetting list" where
  "columnSettingsFrom align i columnSettings =
     (if i < length align \<and> i < 20
      then (if align ! i \<noteq> None \<and> align ! i \<noteq> Some ALeft
            then columnSettingsFrom align (i + 1) (columnSettings @ [ColumnSetting (align ! i)])
            else if length columnSettings > 0
            then columnSettingsFrom align (i + 1) (columnSettings @ [ColumnSetting None])
            else columnSettingsFrom align (i + 1) columnSettings)
      else columnSettings)"
  by pat_completeness auto
termination
  by (relation "measure (\<lambda>(align, i, columnSettings). length align - i)") auto

definition parseTableRowsToBlocks ::
    "env \<Rightarrow> token list list \<Rightarrow> token list list list \<Rightarrow> align option list
       \<Rightarrow> tableCell list list \<times> columnSetting list" where
  "parseTableRowsToBlocks e header rows align =
     (map (parseTableCellToBlock e) header # map (map (parseTableCellToBlock e)) rows,
      columnSettingsFrom align 0 [])"

definition parseTable ::
    "env \<Rightarrow> token list list \<Rightarrow> token list list list \<Rightarrow> align option list
       \<Rightarrow> error + block" where
  "parseTable e header rows align =
     (case parseTableRowsToBlocks e header rows align of
        (tableRows, columnSettings) \<Rightarrow>
          slackTable e tableRows
            (if length columnSettings > 0 then Some columnSettings else None))"

section \<open>Embedded markup\<close>

text \<open>
  What the parser reads of the XML library's result: a property of an object
  (\<open>None\<close> for \<^verbatim>\<open>undefined\<close>, also on a string or an array), JavaScript truthiness,
  \<^verbatim>\<open>Array.isArray(v) ? v : [v]\<close>, and a string-valued property. In the library's
  output every attribute (a key starting with \<^verbatim>\<open>@_\<close>) and every \<^verbatim>\<open>#text\<close> is a
  string, and tag values are kept as text; \<open>getAttr\<close> reads such a property.
\<close>

definition getProp :: "xml \<Rightarrow> string \<Rightarrow> xml option" where
  "getProp x key = (case x of XElem kvs \<Rightarrow> map_of kvs key | _ \<Rightarrow> None)"

definition truthy :: "xml option \<Rightarrow> bool" where
  "truthy v = (case v of None \<Rightarrow> False | Some (XText s) \<Rightarrow> s \<noteq> [] | Some _ \<Rightarrow> True)"

definition asArray :: "xml \<Rightarrow> xml list" where
  "asArray v = (case v of XList xs \<Rightarrow> xs | _ \<Rightarrow> [v])"

definition getAttr :: "xml \<Rightarrow> string \<Rightarrow> string option" where
  "getAttr x key = (case getProp x key of Some (XText s) \<Rightarrow> Some s | _ \<Rightarrow> None)"

text \<open>\<^verbatim>\<open>x[key] || dflt\<close> for a string-valued property.\<close>

definition attrOr :: "xml \<Rightarrow> string \<Rightarrow> string \<Rightarrow> string" where
  "attrOr x key dflt = (case getAttr x key of Some s \<Rightarrow> if s \<noteq> [] then s else dflt | None \<Rightarrow> dflt)"

fun extractTextFromHtmlElement :: "xml \<Rightarrow> string"
  and extractTextFromArray :: "xml list \<Rightarrow> string"
  and extractTextFromKeys :: "(string \<times> xml) list \<Rightarrow> string" where
  "extractTextFromHtmlElement (XText s) = s"
| "extractTextFromHtmlElement (XList xs) = extractTextFromArray xs"
| "extractTextFromHtmlElement (XElem kvs) =
     (if attrOr (XElem kvs) ''#text'' [] \<noteq> [] then attrOr (XElem kvs) ''#text'' []
      else extractTextFromKeys kvs)"
| "extractTextFromArray [] = []"
| "extractTextFromArray (x # xs) = extractTextFromHtmlElement x @ extractTextFromArray xs"
| "extractTextFromKeys [] = []"
| "extractTextFromKeys ((key, v) # rest) =
     (if take 2 key \<noteq> ''@_''
      then (case v of
              XText s \<Rightarrow> s
            | _ \<Rightarrow>
               (if attrOr v ''#text'' [] \<noteq> [] then attrOr v ''#text'' []
                else (let extracted = extractTextFromHtmlElement v
                      in if extracted \<noteq> [] then extracted else extractTextFromKeys rest)))
      else extractTextFromKeys rest)"

text \<open>
  \<^verbatim>\<open>columnSettings\<close> of \<^verbatim>\<open>parseHtmlTable\<close> is a sparse array, written by index: a list
  of options, \<open>None\<close> for a hole. \<open>setAt\<close> is \<^verbatim>\<open>columnSettings[index] = v\<close>,
  \<open>occupied\<close> is the truthiness of \<^verbatim>\<open>columnSettings[index]\<close>.
\<close>

definition setAt :: "nat \<Rightarrow> 'a \<Rightarrow> 'a option list \<Rightarrow> 'a option list" where
  "setAt index v xs =
     (if index < length xs then xs[index := Some v]
      else xs @ replicate (index - length xs) None @ [Some v])"

definition occupied :: "'a option list \<Rightarrow> nat \<Rightarrow> bool" where
  "occupied xs index = (index < length xs \<and> xs ! index \<noteq> None)"

text \<open>The \<^verbatim>\<open>center\<close> or \<^verbatim>\<open>right\<close> alignment an element's \<^verbatim>\<open>@_align\<close> asks for.\<close>

definition alignOf :: "xml \<Rightarrow> align option" where
  "alignOf x =
     (let a = toLowerCase (attrOr x ''@_align'' [])
      in if a = ''center'' then Some ACenter
         else if a = ''right'' then Some ARight else None)"

definition colAlign :: "columnSetting option list \<Rightarrow> nat \<times> xml \<Rightarrow> columnSetting option list" where
  "colAlign columnSettings ic =
     (case ic of (index, col) \<Rightarrow>
        (case alignOf col of
           Some a \<Rightarrow> setAt index (ColumnSetting (Some a)) columnSettings
         | None \<Rightarrow> columnSettings))"

definition cellAlign :: "columnSetting option list \<Rightarrow> nat \<times> xml \<Rightarrow> columnSetting option list" where
  "cellAlign columnSettings ic =
     (case ic of (index, cell) \<Rightarrow>
        (if attrOr cell ''@_align'' [] \<noteq> [] \<and> \<not> occupied columnSettings index
         then colAlign columnSettings (index, cell)
         else columnSettings))"

definition indexed :: "'a list \<Rightarrow> (nat \<times> 'a) list" where
  "indexed xs = zip [0..<length xs] xs"

definition rawCells :: "xml list \<Rightarrow> tableCell list" where
  "rawCells cells = map (\<lambda>c. RawText (extractTextFromHtmlElement c)) cells"

text \<open>
  \<^verbatim>\<open>tableElement.thead.tr === tr\<close> compares references: two objects of the parsed
  tree are never the same object, two strings are equal when their text is.
\<close>

definition sameValue :: "xml option \<Rightarrow> xml \<Rightarrow> bool" where
  "sameValue a b = (case (a, b) of (Some (XText s), XText t) \<Rightarrow> s = t | _ \<Rightarrow> False)"

text \<open>The body rows, from the rows and the column settings reached so far.\<close>

fun htmlBodyRows ::
    "xml \<Rightarrow> xml list \<Rightarrow> tableCell list list \<times> columnSetting option list
       \<Rightarrow> tableCell list list \<times> columnSetting option list" where
  "htmlBodyRows tableElement [] acc = acc"
| "htmlBodyRows tableElement (tr # rest) (rows, columnSettings) =
     (if truthy (getProp tableElement ''thead'')
         \<and> sameValue (getProp (the (getProp tableElement ''thead'')) ''tr'') tr
      then htmlBodyRows tableElement rest (rows, columnSettings)
      else (let cellElements = (if truthy (getProp tr ''td'') then getProp tr ''td'' else getProp tr ''th'')
            in if truthy cellElements
               then (let cellArray = asArray (the cellElements);
                         columnSettings' = foldl cellAlign columnSettings (indexed cellArray)
                     in htmlBodyRows tableElement rest
                          (if length cellArray > 0 then rows @ [rawCells cellArray] else rows,
                           columnSettings'))
               else htmlBodyRows tableElement rest (rows, columnSettings)))"

text \<open>
  \<^verbatim>\<open>columnSettings.filter((s, i) => s.align || columnSettings.slice(i + 1).some(cs => cs.align))\<close>:
  \<^verbatim>\<open>filter\<close> and \<^verbatim>\<open>some\<close> skip the holes of a sparse array.
\<close>

definition hasAlign :: "columnSetting option \<Rightarrow> bool" where
  "hasAlign s = (case s of Some (ColumnSetting (Some a)) \<Rightarrow> True | _ \<Rightarrow> False)"

fun cleanSettings :: "columnSetting option list \<Rightarrow> columnSetting list" where
  "cleanSettings [] = []"
| "cleanSettings (None # rest) = cleanSettings rest"
| "cleanSettings (Some s # rest) =
     (if hasAlign (Some s) \<or> list_ex hasAlign rest then s # cleanSettings rest
      else cleanSettings rest)"

definition parseHtmlTable :: "env \<Rightarrow> xml \<Rightarrow> block option" where
  "parseHtmlTable e tableElement =
     (let colgroup = getProp tableElement ''colgroup'';
          columnSettings0 =
            (if truthy colgroup \<and> truthy (getProp (the colgroup) ''col'')
             then foldl colAlign [] (indexed (asArray (the (getProp (the colgroup) ''col''))))
             else []);
          thead = getProp tableElement ''thead'';
          headerRow =
            (if truthy thead \<and> truthy (getProp (the thead) ''tr'')
             then (case the (getProp (the thead) ''tr'') of
                     XList trs \<Rightarrow> (case trs of [] \<Rightarrow> None | tr # rest \<Rightarrow> Some tr)
                   | tr \<Rightarrow> Some tr)
             else None);
          (rows1, columnSettings1) =
            (if truthy headerRow \<and> truthy (getProp (the headerRow) ''th'')
             then (let headers = asArray (the (getProp (the headerRow) ''th''))
                   in ([rawCells headers], foldl cellAlign columnSettings0 (indexed headers)))
             else ([], columnSettings0));
          bodyElement =
            (if truthy (getProp tableElement ''tbody'') then the (getProp tableElement ''tbody'')
             else tableElement);
          (rows, columnSettings) =
            (if truthy (getProp bodyElement ''tr'')
             then htmlBodyRows tableElement (asArray (the (getProp bodyElement ''tr'')))
                    (rows1, columnSettings1)
             else (rows1, columnSettings1))
      in if length rows > 0
         then (let cleanedSettings = cleanSettings columnSettings
               in case slackTable e rows
                         (if length cleanedSettings > 0 then Some cleanedSettings else None) of
                    Inr tableBlock \<Rightarrow> Some tableBlock
                  | Inl err \<Rightarrow> None)
         else None)"

text \<open>
  One \<^verbatim>\<open>img\<close> tag: \<open>Inr None\<close> is the \<^verbatim>\<open>null\<close> that the filter removes, \<open>Inl\<close> a
  throw of the builder. Modelled from the spec: the URL validator rejects everything
  that is not one of the URLs it accepts, so it rejects a missing \<^verbatim>\<open>@_src\<close>.
\<close>

definition htmlImage :: "env \<Rightarrow> xml \<Rightarrow> error + block option" where
  "htmlImage e img =
     (case getAttr img ''@_src'' of
        None \<Rightarrow> Inr None
      | Some url \<Rightarrow>
          (if \<not> validateUrl e url then Inr None
           else (case slackImage e url (attrOr img ''@_alt'' url) None of
                   Inl err \<Rightarrow> Inl err
                 | Inr imageBlock \<Rightarrow> Inr (Some imageBlock))))"

fun htmlImages :: "env \<Rightarrow> xml list \<Rightarrow> error + block list" where
  "htmlImages e [] = Inr []"
| "htmlImages e (img # rest) =
     (case htmlImage e img of
        Inl err \<Rightarrow> Inl err
      | Inr b \<Rightarrow>
          (case htmlImages e rest of
             Inl err \<Rightarrow> Inl err
           | Inr bs \<Rightarrow> Inr ((case b of None \<Rightarrow> [] | Some imageBlock \<Rightarrow> [imageBlock]) @ bs)))"

definition htmlVideo :: "env \<Rightarrow> xml \<Rightarrow> block option" where
  "htmlVideo e vid =
     (let videoUrl = attrOr vid ''@_src'' [];
          posterUrl = attrOr vid ''@_poster'' [];
          title = attrOr vid ''@_title'' ''Video'';
          altText = attrOr vid ''@_alt'' title
      in if videoUrl = [] \<or> \<not> validateUrl e videoUrl then None
         else if posterUrl \<noteq> [] \<and> \<not> validateUrl e posterUrl then None
         else (case slackVideo e videoUrl (if posterUrl \<noteq> [] then posterUrl else videoUrl)
                      title altText of
                 Inr videoBlock \<Rightarrow> Some videoBlock
               | Inl err \<Rightarrow> None))"

text \<open>The body of the \<^verbatim>\<open>try\<close> of \<^verbatim>\<open>parseHTML\<close>, after the parse.\<close>

definition htmlBlocks :: "env \<Rightarrow> xml \<Rightarrow> error + block list" where
  "htmlBlocks e res =
     (let tableBlocks =
            (if truthy (getProp res ''table'')
             then (case parseHtmlTable e (the (getProp res ''table'')) of
                     Some tableBlock \<Rightarrow> [tableBlock]
                   | None \<Rightarrow> [])
             else []);
          videoBlocks =
            (if truthy (getProp res ''video'')
             then List.map_filter (htmlVideo e) (asArray (the (getProp res ''video'')))
             else [])
      in case (if truthy (getProp res ''img'')
               then htmlImages e (asArray (the (getProp res ''img'')))
               else Inr []) of
           Inl err \<Rightarrow> Inl err
         | Inr imageBlocks \<Rightarrow> Inr (tableBlocks @ imageBlocks @ videoBlocks))"

definition parseHTML :: "env \<Rightarrow> string \<Rightarrow> block list" where
  "parseHTML e raw =
     (case xmlParse e raw of
        Inl err \<Rightarrow> []
      | Inr res \<Rightarrow> (case htmlBlocks e res of Inl err \<Rightarrow> [] | Inr blocks \<Rightarrow> blocks))"

section \<open>Blockquotes and the token router\<close>

definition isParagraphOrText :: "token \<Rightarrow> bool" where
  "isParagraphOrText t =
     (case t of Paragraph text tokens \<Rightarrow> True | Text raw text tokens \<Rightarrow> True | _ \<Rightarrow> False)"

definition isFileBlock :: "block \<Rightarrow> bool" where
  "isFileBlock b = (case b of FileB n \<Rightarrow> True | _ \<Rightarrow> False)"

text \<open>The trial parse: \<^verbatim>\<open>flatMap\<close> of \<^verbatim>\<open>parseParagraph\<close> over the paragraph children.\<close>

fun testBlocks :: "env \<Rightarrow> token list \<Rightarrow> int \<Rightarrow> block list result" where
  "testBlocks e [] recursionDepth = (Inr [], recursionDepth)"
| "testBlocks e (token # rest) recursionDepth =
     (case (case token of
              Paragraph text tokens \<Rightarrow> parseParagraph e tokens recursionDepth
            | _ \<Rightarrow> (Inr [], recursionDepth)) of
        (Inl err, d) \<Rightarrow> (Inl err, d)
      | (Inr bs, d) \<Rightarrow>
          (case testBlocks e rest d of
             (Inl err, d') \<Rightarrow> (Inl err, d')
           | (Inr bs', d') \<Rightarrow> (Inr (bs @ bs'), d')))"

text \<open>
  The loop that fills \<^verbatim>\<open>quoteElements\<close>, at the child of index \<open>i\<close> of \<open>n\<close> children.
  The tokens of a token tree are distinct objects, so \<^verbatim>\<open>element.tokens.indexOf(token)\<close>
  is the index the loop has reached.
\<close>

fun quoteElementsFrom :: "env \<Rightarrow> nat \<Rightarrow> nat \<Rightarrow> token list \<Rightarrow> richElem list" where
  "quoteElementsFrom e n i [] = []"
| "quoteElementsFrom e n i (token # rest) =
     (case token of
        Paragraph text tokens \<Rightarrow>
          (if tokens \<noteq> []
           then tokensToRichTextElements e tokens
                @ (if int i < int n - 1 then [TextEl [CHR 0x0A] None] else [])
           else [])
      | Text raw text tokens \<Rightarrow>
          (case tokens of
             Some ts \<Rightarrow> if ts \<noteq> [] then tokensToRichTextElements e ts else [TextEl text None]
           | None \<Rightarrow> [TextEl text None])
      | _ \<Rightarrow> [])
     @ quoteElementsFrom e n (i + 1) rest"

text \<open>\<^verbatim>\<open>'> ' + text.replace(/\n/g, '\n> ')\<close> on a Section whose text is not empty.\<close>

definition addQuotePrefix :: "block \<Rightarrow> block" where
  "addQuotePrefix b =
     (case b of
        Section t \<Rightarrow>
          (if t \<noteq> []
           then Section (''> '' @ concat (map (\<lambda>c. if c = CHR 0x0A then [CHR 0x0A] @ ''> '' else [c]) t))
           else Section t)
      | _ \<Rightarrow> b)"

fun parseBlockquote :: "env \<Rightarrow> token list \<Rightarrow> int \<Rightarrow> block list result"
  and quoteBlocks :: "env \<Rightarrow> token list \<Rightarrow> int \<Rightarrow> block list result" where
  "parseBlockquote e tokens recursionDepth =
     (if list_all isParagraphOrText tokens
      then (case testBlocks e tokens recursionDepth of
              (Inl err, d) \<Rightarrow> (Inl err, d)
            | (Inr trial, d) \<Rightarrow>
                (if list_ex isFileBlock trial
                 then (case quoteBlocks e tokens d of
                         (Inl err, d') \<Rightarrow> (Inl err, d')
                       | (Inr blocks, d') \<Rightarrow> (Inr (map addQuotePrefix blocks), d'))
                 else (let quoteElements = quoteElementsFrom e (length tokens) 0 tokens
                       in if length quoteElements > 0
                          then (Inr [RichTextQuote quoteElements], d)
                          else (Inr [], d))))
      else (case quoteBlocks e tokens recursionDepth of
              (Inl err, d') \<Rightarrow> (Inl err, d')
            | (Inr blocks, d') \<Rightarrow> (Inr (map addQuotePrefix blocks), d')))"
| "quoteBlocks e [] recursionDepth = (Inr [], recursionDepth)"
| "quoteBlocks e (token # rest) recursionDepth =
     (case (case token of
              Paragraph text tokens \<Rightarrow> parseParagraph e tokens recursionDepth
            | ListTok ordered items \<Rightarrow> (Inr [parseList e ordered items None 0], recursionDepth)
            | Code text \<Rightarrow> (Inr [parseCode text], recursionDepth)
            | Blockquote text tokens \<Rightarrow> parseBlockquote e tokens recursionDepth
            | Heading text tokens \<Rightarrow> (Inr [parseHeading tokens], recursionDepth)
            | HTML raw text \<Rightarrow> (Inr (parseHTML e raw), recursionDepth)
            | _ \<Rightarrow> (Inr [], recursionDepth)) of
        (Inl err, d) \<Rightarrow> (Inl err, d)
      | (Inr bs, d) \<Rightarrow>
          (case quoteBlocks e rest d of
             (Inl err, d') \<Rightarrow> (Inl err, d')
           | (Inr bs', d') \<Rightarrow> (Inr (bs @ bs'), d')))"

definition parseToken :: "env \<Rightarrow> token \<Rightarrow> parsingOptions \<Rightarrow> int \<Rightarrow> block list result" where
  "parseToken e token options recursionDepth =
     (case token of
        Heading text tokens \<Rightarrow> (Inr [parseHeading tokens], recursionDepth)
      | Paragraph text tokens \<Rightarrow> parseParagraph e tokens recursionDepth
      | Code text \<Rightarrow> (Inr [parseCode text], recursionDepth)
      | Blockquote text tokens \<Rightarrow> parseBlockquote e tokens recursionDepth
      | ListTok ordered items \<Rightarrow>
          (Inr [parseList e ordered items (listOpts options) 0], recursionDepth)
      | TableTok header rows align \<Rightarrow>
          (case parseTable e header rows align of
             Inl err \<Rightarrow> (Inl err, recursionDepth)
           | Inr tableBlock \<Rightarrow> (Inr [tableBlock], recursionDepth))
      | Hr \<Rightarrow> (Inr [Divider], recursionDepth)
      | HTML raw text \<Rightarrow> (Inr (parseHTML e raw), recursionDepth)
      | _ \<Rightarrow> (Inr [], recursionDepth))"

text \<open>\<^verbatim>\<open>tokens.flatMap(token => parseToken(token, options))\<close>.\<close>

fun parseBlocks :: "env \<Rightarrow> token list \<Rightarrow> parsingOptions \<Rightarrow> int \<Rightarrow> block list result" where
  "parseBlocks e [] options recursionDepth = (Inr [], recursionDepth)"
| "parseBlocks e (token # rest) options recursionDepth =
     (case parseToken e token options recursionDepth of
        (Inl err, d) \<Rightarrow> (Inl err, d)
      | (Inr bs, d) \<Rightarrow>
          (case parseBlocks e rest options d of
             (Inl err, d') \<Rightarrow> (Inl err, d')
           | (Inr bs', d') \<Rightarrow> (Inr (bs @ bs'), d')))"

section \<open>Notions of the specification\<close>

text \<open>
  The nesting depth of an inline token: the number of token levels on its deepest path
  through links, emphasis, strong and strike tokens, the token itself included.
\<close>

fun nesting :: "token \<Rightarrow> nat"
  and nestingAll :: "token list \<Rightarrow> nat" where
  "nesting (Link href title text tokens) = 1 + nestingAll tokens"
| "nesting (Em text tokens) = 1 + nestingAll tokens"
| "nesting (Strong text tokens) = 1 + nestingAll tokens"
| "nesting (Del text tokens) = 1 + nestingAll tokens"
| "nesting _ = 1"
| "nestingAll [] = 0"
| "nestingAll (child # rest) = max (nesting child) (nestingAll rest)"

text \<open>
  The platform markup as the specification states it, without counter or failure:
  a link with a valid URL is \<^verbatim>\<open><url|text>\<close> and a space, a link with an invalid URL
  its children, emphasis \<^verbatim>\<open>_text_\<close>, strong \<^verbatim>\<open>*text*\<close>, strike \<^verbatim>\<open>~text~\<close>, a code
  span its text between backticks, plain text itself.
\<close>

fun render :: "env \<Rightarrow> token \<Rightarrow> string"
  and renderAll :: "env \<Rightarrow> token list \<Rightarrow> string list" where
  "render e (Link href title text tokens) =
     (if href \<noteq> [] \<and> validateUrl e href
      then ''<'' @ href @ ''|'' @ concat (renderAll e tokens) @ ''> ''
      else concat (renderAll e tokens))"
| "render e (Em text tokens) = ''_'' @ concat (renderAll e tokens) @ ''_''"
| "render e (Strong text tokens) = ''*'' @ concat (renderAll e tokens) @ ''*''"
| "render e (Del text tokens) = ''~'' @ concat (renderAll e tokens) @ ''~''"
| "render e (Codespan raw text) = ''`'' @ text @ ''`''"
| "render e (Text raw text tokens) = text"
| "render e _ = []"
| "renderAll e [] = []"
| "renderAll e (child # rest) = render e child # renderAll e rest"

text \<open>
  Modelled from the spec: \<^verbatim>\<open>validateUrl\<close> of \<^verbatim>\<open>src/validation.ts\<close> and the builders
  \<^verbatim>\<open>image\<close>, \<^verbatim>\<open>file\<close>, \<^verbatim>\<open>video\<close> and \<^verbatim>\<open>table\<close> of \<^verbatim>\<open>src/slack.ts\<close> are missing.
  The spec and the builders' tests say: the validator accepts \<^verbatim>\<open>http(s)\<close> URLs,
  \<^verbatim>\<open>data:\<close> URLs and bare relative paths; \<^verbatim>\<open>image\<close> throws on an empty or invalid URL
  and truncates alt text and title to 2000 characters; \<^verbatim>\<open>file\<close> throws on an empty
  identifier and keeps any other; \<^verbatim>\<open>video\<close> throws on an empty URL, title or alt text
  and truncates the title to 200 characters; a table has at most 100 rows, 20 cells a
  row and 20 column settings. The concrete inputs below run in this environment; its
  ceiling and its XML parser are arguments.
\<close>

definition specValidateUrl :: "string \<Rightarrow> bool" where
  "specValidateUrl url =
     (url \<noteq> [] \<and> (take 7 url = ''http://'' \<or> take 8 url = ''https://''
        \<or> take 5 url = ''data:'' \<or> CHR '':'' \<notin> set url))"

definition specImage :: "string \<Rightarrow> string \<Rightarrow> string option \<Rightarrow> error + block" where
  "specImage url alt title =
     (if url = [] \<or> \<not> specValidateUrl url then Inl ValidationError
      else Inr (ImageB url (safeTruncate alt 2000)
                  (case title of None \<Rightarrow> None | Some t \<Rightarrow> Some (safeTruncate t 2000))))"

definition specFile :: "string \<Rightarrow> error + block" where
  "specFile externalId =
     (if externalId = [] then Inl ValidationError else Inr (FileB externalId))"

definition specVideo :: "string \<Rightarrow> string \<Rightarrow> string \<Rightarrow> string \<Rightarrow> error + block" where
  "specVideo videoUrl thumbnailUrl title altText =
     (if videoUrl = [] \<or> thumbnailUrl = [] \<or> title = [] \<or> altText = []
         \<or> \<not> specValidateUrl videoUrl \<or> \<not> specValidateUrl thumbnailUrl
      then Inl ValidationError
      else Inr (VideoB videoUrl thumbnailUrl (safeTruncate title 200) altText))"

definition specTable :: "tableCell list list \<Rightarrow> columnSetting list option \<Rightarrow> error + block" where
  "specTable rows columnSettings =
     Inr (TableB (map (take 20) (take 100 rows))
            (case columnSettings of None \<Rightarrow> None | Some cs \<Rightarrow> Some (take 20 cs)))"

definition specEnv :: "int \<Rightarrow> (string \<Rightarrow> error + xml) \<Rightarrow> env" where
  "specEnv ceiling parser =
     \<lparr> validateUrl = specValidateUrl, maxRecursionDepth = ceiling, slackImage = specImage,
       slackFile = specFile, slackVideo = specVideo, slackTable = specTable,
       xmlParse = parser \<rparr>"

text \<open>An XML parser that fails on every input, for inputs without embedded markup.\<close>

definition noXml :: "string \<Rightarrow> error + xml" where
  "noXml raw = Inl ParseError"

text \<open>The top-level inline kinds of claim C1: plain text, emphasis and strong.\<close>

definition isPlainEmStrong :: "token \<Rightarrow> bool" where
  "isPlainEmStrong t =
     (case t of Text raw text tokens \<Rightarrow> True | Em text tokens \<Rightarrow> True
      | Strong text tokens \<Rightarrow> True | _ \<Rightarrow> False)"

text \<open>
  The counter after a sequence of earlier invocations of \<open>parseBlocks\<close>, each started
  with the counter the one before it left.
\<close>

fun counterAfter :: "env \<Rightarrow> (token list \<times> parsingOptions) list \<Rightarrow> int \<Rightarrow> int" where
  "counterAfter e [] recursionDepth = recursionDepth"
| "counterAfter e ((tokens, options) # later) recursionDepth =
     counterAfter e later (snd (parseBlocks e tokens options recursionDepth))"

text \<open>
  The tags of one family in a parse result: none when the key is absent or falsy, the
  array's elements, or the one object.
\<close>

definition tagsOf :: "xml \<Rightarrow> string \<Rightarrow> xml list" where
  "tagsOf res key = (if truthy (getProp res key) then asArray (the (getProp res key)) else [])"

text \<open>
  The quote body as the specification states it for paragraphs: the rich elements of
  each paragraph, with one newline text element between two paragraphs.
\<close>

definition isNonEmptyParagraph :: "token \<Rightarrow> bool" where
  "isNonEmptyParagraph t = (case t of Paragraph ptext tokens \<Rightarrow> tokens \<noteq> [] | _ \<Rightarrow> False)"

definition paragraphTokens :: "token \<Rightarrow> token list" where
  "paragraphTokens t = (case t of Paragraph ptext tokens \<Rightarrow> tokens | _ \<Rightarrow> [])"

fun separated :: "richElem list list \<Rightarrow> richElem list" where
  "separated [] = []"
| "separated [x] = x"
| "separated (x # y # zs) = x @ [TextEl [CHR 0x0A] None] @ separated (y # zs)"








text \<open>
  The entries of an island as the specification speaks of them. An \<^verbatim>\<open>img\<close> tag is
  valid when it has a \<^verbatim>\<open>src\<close> that the validator accepts; its entry is the block the
  image builder returns for it. A \<^verbatim>\<open>video\<close> tag is accepted when its \<^verbatim>\<open>src\<close> is valid
  and its \<^verbatim>\<open>poster\<close>, if present, is valid too; its entry is the block the video
  builder returns for it. An invalid tag and a tag whose builder throws have no entry.
\<close>

definition tableBlocksOf :: "env \<Rightarrow> xml \<Rightarrow> block list" where
  "tableBlocksOf e res =
     (if truthy (getProp res ''table'')
      then (case parseHtmlTable e (the (getProp res ''table'')) of
              Some tableBlock \<Rightarrow> [tableBlock]
            | None \<Rightarrow> [])
      else [])"

definition imageValid :: "env \<Rightarrow> xml \<Rightarrow> bool" where
  "imageValid e img =
     (case getAttr img ''@_src'' of None \<Rightarrow> False | Some url \<Rightarrow> validateUrl e url)"

definition imageBuilt :: "env \<Rightarrow> xml \<Rightarrow> error + block" where
  "imageBuilt e img =
     slackImage e (attrOr img ''@_src'' [])
       (attrOr img ''@_alt'' (attrOr img ''@_src'' [])) None"

definition imageEntry :: "env \<Rightarrow> xml \<Rightarrow> block option" where
  "imageEntry e img =
     (if imageValid e img
      then (case imageBuilt e img of Inr b \<Rightarrow> Some b | Inl err \<Rightarrow> None)
      else None)"

definition imageThrows :: "env \<Rightarrow> xml \<Rightarrow> bool" where
  "imageThrows e img =
     (imageValid e img \<and> (case imageBuilt e img of Inl err \<Rightarrow> True | Inr b \<Rightarrow> False))"

definition videoAccepted :: "env \<Rightarrow> xml \<Rightarrow> bool" where
  "videoAccepted e vid =
     (attrOr vid ''@_src'' [] \<noteq> [] \<and> validateUrl e (attrOr vid ''@_src'' [])
      \<and> (attrOr vid ''@_poster'' [] = [] \<or> validateUrl e (attrOr vid ''@_poster'' [])))"

definition videoBuilt :: "env \<Rightarrow> xml \<Rightarrow> error + block" where
  "videoBuilt e vid =
     slackVideo e (attrOr vid ''@_src'' [])
       (if attrOr vid ''@_poster'' [] \<noteq> [] then attrOr vid ''@_poster'' []
        else attrOr vid ''@_src'' [])
       (attrOr vid ''@_title'' ''Video'')
       (attrOr vid ''@_alt'' (attrOr vid ''@_title'' ''Video''))"

definition videoEntry :: "env \<Rightarrow> xml \<Rightarrow> block option" where
  "videoEntry e vid =
     (if videoAccepted e vid
      then (case videoBuilt e vid of Inr b \<Rightarrow> Some b | Inl err \<Rightarrow> None)
      else None)"

text \<open>
  A stand-in for the XML library on four islands: three \<^verbatim>\<open>img\<close> tags, two
  \<^verbatim>\<open>video\<close> tags, one \<^verbatim>\<open>video\<close> tag (an object, not an array) and an unclosed comment,
  on which the library throws. Any other input gives an empty object.
\<close>

definition demoXml :: "string \<Rightarrow> error + xml" where
  \<open>demoXml raw =
     (if raw = ''<img src="a.png"/><img src="javascript:1"/><img src="b.png" alt="b"/>''
      then Inr (XElem [(''img'', XList [XElem [(''@_src'', XText ''a.png'')],
                                        XElem [(''@_src'', XText ''javascript:1'')],
                                        XElem [(''@_src'', XText ''b.png''), (''@_alt'', XText ''b'')]])])
      else if raw = ''<video src="a.mp4"/><video src="b.mp4"/>''
      then Inr (XElem [(''video'', XList [XElem [(''@_src'', XText ''a.mp4'')],
                                          XElem [(''@_src'', XText ''b.mp4'')]])])
      else if raw = ''<video src="b.mp4"/>''
      then Inr (XElem [(''video'', XElem [(''@_src'', XText ''b.mp4'')])])
      else if raw = ''<!-- broken''
      then Inl ParseError
      else Inr (XElem []))\<close>

section \<open>The phrase renderer\<close>

lemma parseMrkdwn_counter:
  "snd (parseMrkdwn e t d) = d"
  "snd (parseMrkdwnAll e ts d) = d"
  by (induction e t d and e ts d rule: parseMrkdwn_parseMrkdwnAll.induct)
     (auto simp: leave_def joined_def validateRecursionDepth_def split: sum.splits prod.splits)

lemma nesting_le_nestingAll: "t \<in> set ts \<Longrightarrow> nesting t \<le> nestingAll ts"
  by (induction ts) auto

lemma parseMrkdwn_within:
  "d + int (nesting t) \<le> maxRecursionDepth e \<Longrightarrow> parseMrkdwn e t d = (Inr (render e t), d)"
  "(\<forall>t \<in> set ts. d + int (nesting t) \<le> maxRecursionDepth e)
     \<Longrightarrow> parseMrkdwnAll e ts d = (Inr (renderAll e ts), d)"
proof (induction e t d and e ts d rule: parseMrkdwn_parseMrkdwnAll.induct)
  case (1 e href title tx tokens recursionDepth)
  have "\<forall>t \<in> set tokens. recursionDepth + 1 + int (nesting t) \<le> maxRecursionDepth e"
    using 1(3) nesting_le_nestingAll by fastforce
  then show ?case using 1
    by (auto simp: leave_def joined_def validateRecursionDepth_def)
next
  case (2 e tx tokens recursionDepth)
  have "\<forall>t \<in> set tokens. recursionDepth + 1 + int (nesting t) \<le> maxRecursionDepth e"
    using 2(2) nesting_le_nestingAll by fastforce
  then show ?case using 2
    by (auto simp: leave_def joined_def validateRecursionDepth_def)
next
  case (4 e tx tokens recursionDepth)
  have "\<forall>t \<in> set tokens. recursionDepth + 1 + int (nesting t) \<le> maxRecursionDepth e"
    using 4(2) nesting_le_nestingAll by fastforce
  then show ?case using 4
    by (auto simp: leave_def joined_def validateRecursionDepth_def)
next
  case (6 e tx tokens recursionDepth)
  have "\<forall>t \<in> set tokens. recursionDepth + 1 + int (nesting t) \<le> maxRecursionDepth e"
    using 6(2) nesting_le_nestingAll by fastforce
  then show ?case using 6
    by (auto simp: leave_def joined_def validateRecursionDepth_def)
qed (auto simp: leave_def joined_def validateRecursionDepth_def)

lemma nestingAll_exceeds:
  "(k::int) + int (nestingAll ts) > m \<Longrightarrow> k \<le> m \<Longrightarrow> \<exists>t \<in> set ts. k + int (nesting t) > m"
  by (induction ts) (auto simp: max_def split: if_splits)

lemma parseMrkdwn_beyond:
  "d + int (nesting t) > maxRecursionDepth e \<Longrightarrow> fst (parseMrkdwn e t d) = Inl RecursionLimitError"
  "(\<exists>t \<in> set ts. d + int (nesting t) > maxRecursionDepth e)
     \<Longrightarrow> fst (parseMrkdwnAll e ts d) = Inl RecursionLimitError"
proof (induction e t d and e ts d rule: parseMrkdwn_parseMrkdwnAll.induct)
  case (1 e href title tx tokens recursionDepth)
  show ?case
  proof (cases "recursionDepth + 1 > maxRecursionDepth e")
    case True
    then show ?thesis by (simp add: leave_def validateRecursionDepth_def)
  next
    case False
    then have "\<exists>t \<in> set tokens. recursionDepth + 1 + int (nesting t) > maxRecursionDepth e"
      using 1(3) nestingAll_exceeds [where k = "recursionDepth + 1" and ts = tokens and m = "maxRecursionDepth e"] by simp
    then show ?thesis using False 1(1,2)
      by (auto simp: leave_def joined_def validateRecursionDepth_def)
  qed
next
  case (2 e tx tokens recursionDepth)
  show ?case
  proof (cases "recursionDepth + 1 > maxRecursionDepth e")
    case True
    then show ?thesis by (simp add: leave_def validateRecursionDepth_def)
  next
    case False
    then have "\<exists>t \<in> set tokens. recursionDepth + 1 + int (nesting t) > maxRecursionDepth e"
      using 2(2) nestingAll_exceeds [where k = "recursionDepth + 1" and ts = tokens and m = "maxRecursionDepth e"] by simp
    then show ?thesis using False 2(1)
      by (auto simp: leave_def joined_def validateRecursionDepth_def)
  qed
next
  case (4 e tx tokens recursionDepth)
  show ?case
  proof (cases "recursionDepth + 1 > maxRecursionDepth e")
    case True
    then show ?thesis by (simp add: leave_def validateRecursionDepth_def)
  next
    case False
    then have "\<exists>t \<in> set tokens. recursionDepth + 1 + int (nesting t) > maxRecursionDepth e"
      using 4(2) nestingAll_exceeds [where k = "recursionDepth + 1" and ts = tokens and m = "maxRecursionDepth e"] by simp
    then show ?thesis using False 4(1)
      by (auto simp: leave_def joined_def validateRecursionDepth_def)
  qed
next
  case (6 e tx tokens recursionDepth)
  show ?case
  proof (cases "recursionDepth + 1 > maxRecursionDepth e")
    case True
    then show ?thesis by (simp add: leave_def validateRecursionDepth_def)
  next
    case False
    then have "\<exists>t \<in> set tokens. recursionDepth + 1 + int (nesting t) > maxRecursionDepth e"
      using 6(2) nestingAll_exceeds [where k = "recursionDepth + 1" and ts = tokens and m = "maxRecursionDepth e"] by simp
    then show ?thesis using False 6(1)
      by (auto simp: leave_def joined_def validateRecursionDepth_def)
  qed
next
  case (9 e child rest recursionDepth)
  show ?case
  proof (cases "fst (parseMrkdwn e child recursionDepth)")
    case (Inl err)
    show ?thesis
    proof (cases "recursionDepth + int (nesting child) > maxRecursionDepth e")
      case True
      then show ?thesis using 9(1) by (auto split: prod.splits sum.splits)
    next
      case False
      then have "parseMrkdwn e child recursionDepth = (Inr (render e child), recursionDepth)"
        using parseMrkdwn_within(1) by simp
      then show ?thesis using Inl by simp
    qed
  next
    case (Inr s)
    then have eq: "parseMrkdwn e child recursionDepth = (Inr s, recursionDepth)"
      using parseMrkdwn_counter(1) [of e child recursionDepth] by (cases "parseMrkdwn e child recursionDepth") auto
    have "\<not> recursionDepth + int (nesting child) > maxRecursionDepth e"
      using 9(1) Inr by auto
    then have "\<exists>t \<in> set rest. recursionDepth + int (nesting t) > maxRecursionDepth e"
      using 9(3) by auto
    then have "fst (parseMrkdwnAll e rest recursionDepth) = Inl RecursionLimitError"
      using 9(2) [OF eq [symmetric] refl] by simp
    then show ?thesis using eq by (auto split: prod.splits sum.splits)
  qed
qed (auto simp: leave_def joined_def validateRecursionDepth_def)

text \<open>
  C5. Called with the counter at \<open>d\<close> (0 at top level), the phrase renderer fails with
  the recursion-limit error exactly when \<open>d\<close> plus the token's nesting depth exceeds the
  ceiling, renders the token exactly when it does not (so also at the ceiling), and in
  both cases leaves the counter at \<open>d\<close>.
\<close>

theorem parseMrkdwn_recursion_ceiling:
  "(fst (parseMrkdwn e t d) = Inl RecursionLimitError)
     = (d + int (nesting t) > maxRecursionDepth e)
   \<and> (\<exists>s. fst (parseMrkdwn e t d) = Inr s) = (d + int (nesting t) \<le> maxRecursionDepth e)
   \<and> snd (parseMrkdwn e t d) = d"
proof (cases "d + int (nesting t) \<le> maxRecursionDepth e")
  case True
  then have "parseMrkdwn e t d = (Inr (render e t), d)"
    by (rule parseMrkdwn_within(1))
  then show ?thesis using True by simp
next
  case False
  then have "fst (parseMrkdwn e t d) = Inl RecursionLimitError"
    using parseMrkdwn_beyond(1) by simp
  then show ?thesis using False parseMrkdwn_counter(1) by simp
qed

theorem parseMrkdwn_recursion_ceiling_witness:
  "parseMrkdwn (specEnv 3 noXml) (Em ''x'' [Em ''x'' [Text ''x'' ''x'' None]]) 0
     = (Inr ''__x__'', 0)
   \<and> parseMrkdwn (specEnv 2 noXml) (Em ''x'' [Em ''x'' [Text ''x'' ''x'' None]]) 0
     = (Inl RecursionLimitError, 0)"
proof -
  let ?t = "Em ''x'' [Em ''x'' [Text ''x'' ''x'' None]]"
  have n: "nesting ?t = 3" by simp
  have "fst (parseMrkdwn (specEnv 2 noXml) ?t 0) = Inl RecursionLimitError
        \<and> snd (parseMrkdwn (specEnv 2 noXml) ?t 0) = 0"
    using parseMrkdwn_recursion_ceiling [of "specEnv 2 noXml" ?t 0] n
    by (simp add: specEnv_def)
  then have beyond: "parseMrkdwn (specEnv 2 noXml) ?t 0 = (Inl RecursionLimitError, 0)"
    by (simp add: prod_eq_iff)
  obtain s where "fst (parseMrkdwn (specEnv 3 noXml) ?t 0) = Inr s"
    using parseMrkdwn_recursion_ceiling [of "specEnv 3 noXml" ?t 0] n
    by (auto simp: specEnv_def)
  moreover have "parseMrkdwn (specEnv 3 noXml) ?t 0 = (Inr ''__x__'', 0)"
    by (simp add: leave_def joined_def validateRecursionDepth_def specEnv_def)
  ultimately show ?thesis using beyond by simp
qed

text \<open>
  C6. Within the ceiling, the phrase renderer returns the platform markup of the
  specification (\<open>render\<close>) for every inline token.
\<close>

theorem parseMrkdwn_markup:
  "d + int (nesting t) \<le> maxRecursionDepth e \<Longrightarrow> fst (parseMrkdwn e t d) = Inr (render e t)"
  using parseMrkdwn_within(1) by simp

theorem parseMrkdwn_markup_witness:
  "0 + int (nesting (Link ''https://example.com'' None ''d'' [Em ''d'' [Text ''d'' ''d'' None]]))
     \<le> maxRecursionDepth (specEnv 10 noXml)
   \<and> fst (parseMrkdwn (specEnv 10 noXml)
            (Link ''https://example.com'' None ''d'' [Em ''d'' [Text ''d'' ''d'' None]]) 0)
       = Inr ''<https://example.com|_d_> ''"
proof -
  have h: "0 + int (nesting (Link ''https://example.com'' None ''d'' [Em ''d'' [Text ''d'' ''d'' None]]))
             \<le> maxRecursionDepth (specEnv 10 noXml)"
    by (simp add: specEnv_def)
  have r: "render (specEnv 10 noXml)
             (Link ''https://example.com'' None ''d'' [Em ''d'' [Text ''d'' ''d'' None]])
           = ''<https://example.com|_d_> ''"
    by (simp add: specEnv_def specValidateUrl_def)
  show ?thesis using h parseMrkdwn_markup [OF h] r by simp
qed

section \<open>Tables\<close>

text \<open>
  C2. The column settings of a table whose second column is centred and whose first
  and third columns have no alignment: the centred entry comes first and an empty
  entry follows it.
\<close>

theorem columnSettings_center_second:
  "snd (parseTableRowsToBlocks e header rows [None, Some ACenter, None])
     = [ColumnSetting (Some ACenter), ColumnSetting None]"
  by (simp add: parseTableRowsToBlocks_def columnSettingsFrom.simps)

section \<open>The counter across the parser\<close>

lemma addRendered_counter: "snd (addRendered e t acc d) = d"
  using parseMrkdwn_counter(1) [of e t d]
  by (auto simp: addRendered_def split: prod.splits sum.splits)

lemma parsePhrasingContent_counter: "snd (parsePhrasingContent e t acc d) = d"
  by (auto simp: parsePhrasingContent_def addRendered_counter Let_def
           split: token.splits sum.splits)

lemma reducePhrasing_counter: "snd (reducePhrasing e ts acc d) = d"
proof (induction ts arbitrary: acc)
  case Nil
  then show ?case by simp
next
  case (Cons t ts)
  show ?case using parsePhrasingContent_counter [of e t acc d] Cons
    by (auto split: prod.splits sum.splits)
qed

lemma parseParagraph_counter: "snd (parseParagraph e ts d) = d"
  by (simp add: parseParagraph_def reducePhrasing_counter)

lemma parseParagraph_counterD: "parseParagraph e ts d = (r, d') \<Longrightarrow> d' = d"
  using parseParagraph_counter [of e ts d] by simp

lemma testBlocks_counterD: "testBlocks e ts d = (r, d') \<Longrightarrow> d' = d"
proof (induction ts arbitrary: r d')
  case Nil
  then show ?case by simp
next
  case (Cons t ts)
  show ?case using Cons.prems Cons.IH
    by (cases t) (auto split: prod.splits sum.splits dest!: parseParagraph_counterD)
qed

lemma parseBlockquote_counterD:
  "parseBlockquote e ts d = (r, d') \<Longrightarrow> d' = d"
  "quoteBlocks e ts d = (r, d') \<Longrightarrow> d' = d"
proof (induction e ts d and e ts d arbitrary: r d' and r d' rule: parseBlockquote_quoteBlocks.induct)
  case (1 e tokens recursionDepth)
  show ?case using 1
    by (auto simp: Let_def split: prod.splits sum.splits if_splits dest!: testBlocks_counterD)
next
  case (2 e recursionDepth)
  then show ?case by simp
next
  case (3 e token rest recursionDepth)
  show ?case using 3
    by (cases token) (auto split: prod.splits sum.splits dest!: parseParagraph_counterD)
qed

lemma parseToken_counterD: "parseToken e t opts d = (r, d') \<Longrightarrow> d' = d"
  by (cases t) (auto simp: parseToken_def simp del: parseBlockquote.simps split: sum.splits
                     dest!: parseParagraph_counterD parseBlockquote_counterD(1))

lemma parseBlocks_counterD: "parseBlocks e ts opts d = (r, d') \<Longrightarrow> d' = d"
proof (induction ts arbitrary: r d')
  case Nil
  then show ?case by simp
next
  case (Cons t ts)
  show ?case using Cons.prems Cons.IH
    by (auto split: prod.splits sum.splits dest!: parseToken_counterD)
qed

lemma parseBlocks_counter: "snd (parseBlocks e ts opts d) = d"
  using parseBlocks_counterD [of e ts opts d] by (cases "parseBlocks e ts opts d") simp

lemma counterAfter_same: "counterAfter e earlier d = d"
  by (induction earlier arbitrary: d) (auto simp: parseBlocks_counter)

text \<open>
  C10. Every invocation of \<open>parseBlocks\<close>, failing or not, leaves the counter where it
  found it; so after any sequence of earlier invocations the counter is the initial
  one, and an invocation returns what it returns on a fresh module.
\<close>

theorem parseBlocks_deterministic:
  "snd (parseBlocks e tokens options d) = d
   \<and> counterAfter e earlier 0 = 0
   \<and> parseBlocks e tokens options (counterAfter e earlier 0) = parseBlocks e tokens options 0"
  by (simp add: parseBlocks_counter counterAfter_same)

section \<open>The frame of the inline accumulator\<close>

lemma addMrkdwn_cases:
  "addMrkdwn c acc = acc @ [slackSection c]
   \<or> (\<exists>t. acc \<noteq> [] \<and> last acc = Section t \<and> addMrkdwn c acc = butlast acc @ [Section (t @ c)])"
  by (auto simp: addMrkdwn_def isSectionBlock_def split: block.splits)

lemma addMrkdwn_frame: "take (length acc - 1) (addMrkdwn c acc) = butlast acc"
  using addMrkdwn_cases [of c acc] by (auto simp: butlast_conv_take)

lemma parsePhrasingContent_cases:
  assumes "fst (parsePhrasingContent e el acc d) = Inr acc'"
  shows "acc' = acc \<or> (\<exists>b. acc' = acc @ [b])
         \<or> (\<exists>t c. acc \<noteq> [] \<and> last acc = Section t \<and> acc' = butlast acc @ [Section (t @ c)])"
proof -
  have r: "\<And>x. fst (addRendered e x acc d) = Inr acc' \<Longrightarrow> ?thesis"
    using addMrkdwn_cases [of _ acc]
    by (auto simp: addRendered_def split: prod.splits sum.splits) metis
  show ?thesis using assms r
    by (cases el) (auto simp: parsePhrasingContent_def Let_def split: sum.splits if_splits)
qed

text \<open>
  C9. \<open>addMrkdwn\<close> and each call of \<open>parsePhrasingContent\<close> leave every element of
  the accumulator before its last one as it was: the new accumulator is the old one,
  or the old one with one block pushed, or the old one with text appended to the
  Section that was its last element.
\<close>

theorem accumulation_frame:
  "take (length acc - 1) (addMrkdwn c acc) = butlast acc
   \<and> (fst (parsePhrasingContent e el acc d) = Inr acc' \<longrightarrow>
        take (length acc - 1) acc' = butlast acc
        \<and> (acc' = acc \<or> (\<exists>b. acc' = acc @ [b])
            \<or> (\<exists>t c. acc \<noteq> [] \<and> last acc = Section t
                      \<and> acc' = butlast acc @ [Section (t @ c)])))"
proof (intro conjI impI)
  show "take (length acc - 1) (addMrkdwn c acc) = butlast acc"
    by (rule addMrkdwn_frame)
next
  assume a: "fst (parsePhrasingContent e el acc d) = Inr acc'"
  show "acc' = acc \<or> (\<exists>b. acc' = acc @ [b])
        \<or> (\<exists>t c. acc \<noteq> [] \<and> last acc = Section t \<and> acc' = butlast acc @ [Section (t @ c)])"
    using a by (rule parsePhrasingContent_cases)
  then show "take (length acc - 1) acc' = butlast acc"
    by (auto simp: butlast_conv_take)
qed

theorem accumulation_frame_witness:
  "fst (parsePhrasingContent (specEnv 10 noXml) (Text ''c'' ''c'' None)
          [Section ''a'', FileB ''x.pdf'', Section ''b''] 0)
     = Inr [Section ''a'', FileB ''x.pdf'', Section ''bc'']
   \<and> take (length [Section ''a'', FileB ''x.pdf'', Section ''b''] - 1)
         [Section ''a'', FileB ''x.pdf'', Section ''bc'']
       = butlast [Section ''a'', FileB ''x.pdf'', Section ''b'']"
proof -
  have h: "fst (parsePhrasingContent (specEnv 10 noXml) (Text ''c'' ''c'' None)
                  [Section ''a'', FileB ''x.pdf'', Section ''b''] 0)
             = Inr [Section ''a'', FileB ''x.pdf'', Section ''bc'']"
    by (simp add: parsePhrasingContent_def addRendered_def addMrkdwn_def isSectionBlock_def
          leave_def validateRecursionDepth_def specEnv_def)
  show ?thesis
    using h accumulation_frame [of "[Section ''a'', FileB ''x.pdf'', Section ''b'']" "''c''"
            "specEnv 10 noXml" "Text ''c'' ''c'' None" 0
            "[Section ''a'', FileB ''x.pdf'', Section ''bc'']"]
    by simp
qed

section \<open>Paragraphs of plain text, emphasis and strong\<close>

lemma addRendered_within:
  "d + int (nesting t) \<le> maxRecursionDepth e
     \<Longrightarrow> addRendered e t acc d = (Inr (addMrkdwn (render e t) acc), d)"
  by (simp add: addRendered_def parseMrkdwn_within(1))

lemma plain_phrasing:
  "isPlainEmStrong t \<Longrightarrow> parsePhrasingContent e t acc d = addRendered e t acc d"
  by (cases t) (auto simp: isPlainEmStrong_def parsePhrasingContent_def)

lemma addMrkdwn_after_section:
  "addMrkdwn c (pre @ [Section s]) = pre @ [Section (s @ c)]"
  by (simp add: addMrkdwn_def isSectionBlock_def)

lemma reducePhrasing_plain:
  "list_all isPlainEmStrong ts \<Longrightarrow> \<forall>t \<in> set ts. d + int (nesting t) \<le> maxRecursionDepth e
     \<Longrightarrow> reducePhrasing e ts (pre @ [Section s]) d
           = (Inr (pre @ [Section (s @ concat (renderAll e ts))]), d)"
proof (induction ts arbitrary: s)
  case Nil
  then show ?case by simp
next
  case (Cons t ts)
  have "parsePhrasingContent e t (pre @ [Section s]) d
          = (Inr (pre @ [Section (s @ render e t)]), d)"
    using Cons.prems by (simp add: plain_phrasing addRendered_within addMrkdwn_after_section)
  then show ?case using Cons by simp
qed

lemma parseParagraph_plain:
  assumes "tokens \<noteq> []" and "list_all isPlainEmStrong tokens"
    and "\<forall>t \<in> set tokens. d + int (nesting t) \<le> maxRecursionDepth e"
  shows "parseParagraph e tokens d
           = (Inr [Section (safeTruncate (render e (hd tokens)) 3000
                             @ concat (renderAll e (tl tokens)))], d)"
proof (cases tokens)
  case Nil
  then show ?thesis using assms by simp
next
  case (Cons t ts)
  have first: "parsePhrasingContent e t [] d = (Inr ([] @ [Section (safeTruncate (render e t) 3000)]), d)"
    using assms Cons
    by (simp add: plain_phrasing addRendered_within addMrkdwn_def slackSection_def)
  have "reducePhrasing e ts ([] @ [Section (safeTruncate (render e t) 3000)]) d
          = (Inr ([] @ [Section (safeTruncate (render e t) 3000 @ concat (renderAll e ts))]), d)"
    using assms Cons by (intro reducePhrasing_plain) auto
  then show ?thesis using first Cons by (simp add: parseParagraph_def)
qed

lemma parseBlocks_append:
  "parseBlocks e (xs @ ys) opts d =
     (case parseBlocks e xs opts d of
        (Inl err, d') \<Rightarrow> (Inl err, d')
      | (Inr bs, d') \<Rightarrow>
          (case parseBlocks e ys opts d' of
             (Inl err, d'') \<Rightarrow> (Inl err, d'')
           | (Inr bs', d'') \<Rightarrow> (Inr (bs @ bs'), d'')))"
  by (induction xs arbitrary: d) (auto split: prod.splits sum.splits)

lemma parseBlocks_fst:
  "fst (parseBlocks e ts opts d) = r \<Longrightarrow> parseBlocks e ts opts d = (r, d)"
  using parseBlocks_counter [of e ts opts d] by (cases "parseBlocks e ts opts d") simp

lemma parseBlocks_around:
  assumes "parseToken e t opts d = (Inr mid, d)"
    and "fst (parseBlocks e before opts d) = Inr bs"
    and "fst (parseBlocks e after opts d) = Inr bs'"
  shows "parseBlocks e (before @ [t] @ after) opts d = (Inr (bs @ mid @ bs'), d)"
  using assms(1) parseBlocks_fst [OF assms(2)] parseBlocks_fst [OF assms(3)]
  by (simp add: parseBlocks_append)

text \<open>
  C1. A paragraph whose inline tokens are plain text, emphasis and strong tokens (at
  least one, none nested beyond the ceiling) becomes exactly one Section: the first
  token's markup, truncated by the builder, followed by the markup of the others.
  Between other top-level tokens it contributes that one block.
\<close>

theorem paragraph_one_section:
  assumes "tokens \<noteq> []" and "list_all isPlainEmStrong tokens"
    and "\<forall>t \<in> set tokens. d + int (nesting t) \<le> maxRecursionDepth e"
  shows "parseBlocks e [Paragraph ptext tokens] options d
           = (Inr [Section (safeTruncate (render e (hd tokens)) 3000
                             @ concat (renderAll e (tl tokens)))], d)
         \<and> (fst (parseBlocks e before options d) = Inr bs
              \<longrightarrow> fst (parseBlocks e after options d) = Inr bs'
              \<longrightarrow> fst (parseBlocks e (before @ [Paragraph ptext tokens] @ after) options d)
                    = Inr (bs @ [Section (safeTruncate (render e (hd tokens)) 3000
                                          @ concat (renderAll e (tl tokens)))] @ bs'))"
proof -
  have tok: "parseToken e (Paragraph ptext tokens) options d
           = (Inr [Section (safeTruncate (render e (hd tokens)) 3000
                             @ concat (renderAll e (tl tokens)))], d)"
    using parseParagraph_plain [OF assms] by (simp add: parseToken_def)
  show ?thesis using tok parseBlocks_around [OF tok] by simp
qed

theorem paragraph_one_section_witness:
  "parseBlocks (specEnv 10 noXml)
     [Paragraph ''**a ~b~** c_d_''
        [Strong ''a ~b~'' [Text ''a '' ''a '' None, Del ''b'' [Text ''b'' ''b'' None]],
         Text '' c'' '' c'' None, Em ''d'' [Text ''d'' ''d'' None]]]
     \<lparr>listOpts = None\<rparr> 0
   = (Inr [Section ''*a ~b~* c_d_''], 0)"
proof -
  let ?ts = "[Strong ''a ~b~'' [Text ''a '' ''a '' None, Del ''b'' [Text ''b'' ''b'' None]],
              Text '' c'' '' c'' None, Em ''d'' [Text ''d'' ''d'' None]]"
  have h1: "?ts \<noteq> []" by simp
  have h2: "list_all isPlainEmStrong ?ts" by (simp add: isPlainEmStrong_def)
  have h3: "\<forall>t \<in> set ?ts. 0 + int (nesting t) \<le> maxRecursionDepth (specEnv 10 noXml)"
    by (simp add: specEnv_def)
  have r: "safeTruncate (render (specEnv 10 noXml) (hd ?ts)) 3000
             @ concat (renderAll (specEnv 10 noXml) (tl ?ts)) = ''*a ~b~* c_d_''"
    by (simp add: safeTruncate_def)
  show ?thesis
    using paragraph_one_section [OF h1 h2 h3,
            where ptext = "''**a ~b~** c_d_''" and options = "\<lparr>listOpts = None\<rparr>"] r
    by simp
qed

section \<open>File links\<close>





























section \<open>Embedded markup islands\<close>

lemma htmlBlocks_tags:
  "htmlBlocks e res =
     (case htmlImages e (tagsOf res ''img'') of
        Inl err \<Rightarrow> Inl err
      | Inr imageBlocks \<Rightarrow>
          Inr ((if truthy (getProp res ''table'')
                then (case parseHtmlTable e (the (getProp res ''table'')) of
                        Some tableBlock \<Rightarrow> [tableBlock]
                      | None \<Rightarrow> [])
                else [])
               @ imageBlocks @ List.map_filter (htmlVideo e) (tagsOf res ''video'')))"
  by (auto simp: htmlBlocks_def tagsOf_def List.map_filter_def split: sum.splits)

lemma map_filter_drop_None:
  "f x = None \<Longrightarrow> List.map_filter f (xs @ [x] @ ys) = List.map_filter f (xs @ ys)"
  by (simp add: List.map_filter_def)

lemma parseBlocks_skip_empty:
  assumes "parseToken e t opts d = (Inr [], d)"
  shows "parseBlocks e (before @ [t] @ after) opts d = parseBlocks e (before @ after) opts d"
proof -
  have "parseBlocks e ([t] @ after) opts d' = parseBlocks e after opts d'" if "d' = d" for d'
    using assms that by (auto split: prod.splits sum.splits)
  then show ?thesis
    using parseBlocks_counterD [of e before opts d]
    by (auto simp: parseBlocks_append [of e before] split: prod.splits sum.splits)
qed

lemma htmlVideo_videoEntry: "htmlVideo e vid = videoEntry e vid"
  by (auto simp: htmlVideo_def videoEntry_def videoAccepted_def videoBuilt_def Let_def
           split: sum.splits)

lemma attrOr_src: "getAttr img ''@_src'' = Some url \<Longrightarrow> attrOr img ''@_src'' [] = url"
  by (simp add: attrOr_def)

lemma htmlImage_entry:
  "htmlImage e img =
     (if imageThrows e img then (case imageBuilt e img of Inl err \<Rightarrow> Inl err | Inr b \<Rightarrow> Inr None)
      else Inr (imageEntry e img))"
  by (auto simp: htmlImage_def imageThrows_def imageEntry_def imageValid_def imageBuilt_def
                 attrOr_src
           split: option.splits sum.splits)

lemma htmlImages_entries:
  "\<not> list_ex (imageThrows e) tags
     \<Longrightarrow> htmlImages e tags = Inr (List.map_filter (imageEntry e) tags)"
  by (induction tags) (auto simp: htmlImage_entry List.map_filter_simps split: option.splits)

lemma htmlImages_throws:
  "list_ex (imageThrows e) tags \<Longrightarrow> \<exists>err. htmlImages e tags = Inl err"
proof (induction tags)
  case Nil
  then show ?case by simp
next
  case (Cons img tags)
  then show ?case
    by (cases "imageThrows e img")
       (auto simp: htmlImage_entry imageThrows_def split: sum.splits option.splits)
qed

lemma parseHTML_entries:
  assumes "xmlParse e raw = Inr res"
  shows "parseHTML e raw =
           (if list_ex (imageThrows e) (tagsOf res ''img'') then []
            else tableBlocksOf e res
                 @ List.map_filter (imageEntry e) (tagsOf res ''img'')
                 @ List.map_filter (videoEntry e) (tagsOf res ''video''))"
proof (cases "list_ex (imageThrows e) (tagsOf res ''img'')")
  case True
  then obtain err where "htmlImages e (tagsOf res ''img'') = Inl err"
    using htmlImages_throws by blast
  then show ?thesis using assms True
    by (simp add: parseHTML_def htmlBlocks_tags)
next
  case False
  have v: "htmlVideo e = videoEntry e" using htmlVideo_videoEntry by auto
  show ?thesis using assms False htmlImages_entries [OF False]
    by (simp add: parseHTML_def htmlBlocks_tags tableBlocksOf_def v)
qed

lemma map_filter_keep:
  "f x = Some b \<Longrightarrow> List.map_filter f (xs @ [x] @ ys)
                      = List.map_filter f xs @ [b] @ List.map_filter f ys"
  by (simp add: List.map_filter_def)

text \<open>
  C8. When the XML parser throws on an island, \<open>parseHTML\<close> returns no block and the
  document parses as it does without the island. An island that parses yields its
  table block, then the entries of its \<^verbatim>\<open>img\<close> tags, then the entries of its
  \<^verbatim>\<open>video\<close> tags, in order (and nothing at all only if the image builder throws on a
  valid tag). An \<^verbatim>\<open>img\<close> tag without a valid URL throws nothing and leaves the other
  entries as they are; a valid one contributes its block. A \<^verbatim>\<open>video\<close> tag whose block
  construction throws leaves the other entries as they are; an accepted one whose
  construction succeeds contributes its block.
\<close>

theorem html_island_failures_are_local:
  "(xmlParse e raw = Inl err \<longrightarrow>
      parseHTML e raw = []
      \<and> parseBlocks e (before @ [HTML raw htext] @ after) options d
          = parseBlocks e (before @ after) options d)
   \<and> (xmlParse e raw = Inr res \<longrightarrow>
      parseHTML e raw =
        (if list_ex (imageThrows e) (tagsOf res ''img'') then []
         else tableBlocksOf e res
              @ List.map_filter (imageEntry e) (tagsOf res ''img'')
              @ List.map_filter (videoEntry e) (tagsOf res ''video'')))
   \<and> (\<not> imageValid e img \<longrightarrow>
      \<not> imageThrows e img
      \<and> List.map_filter (imageEntry e) (imgsA @ [img] @ imgsB)
          = List.map_filter (imageEntry e) (imgsA @ imgsB))
   \<and> (imageValid e img \<longrightarrow> imageBuilt e img = Inr b \<longrightarrow>
      List.map_filter (imageEntry e) (imgsA @ [img] @ imgsB)
        = List.map_filter (imageEntry e) imgsA @ [b] @ List.map_filter (imageEntry e) imgsB)
   \<and> (videoBuilt e vid = Inl err \<longrightarrow>
      List.map_filter (videoEntry e) (vidsA @ [vid] @ vidsB)
        = List.map_filter (videoEntry e) (vidsA @ vidsB))
   \<and> (videoAccepted e vid \<longrightarrow> videoBuilt e vid = Inr b \<longrightarrow>
      List.map_filter (videoEntry e) (vidsA @ [vid] @ vidsB)
        = List.map_filter (videoEntry e) vidsA @ [b] @ List.map_filter (videoEntry e) vidsB)"
proof (intro conjI impI)
  assume p: "xmlParse e raw = Inl err"
  then show h: "parseHTML e raw = []" by (simp add: parseHTML_def)
  have "parseToken e (HTML raw htext) options d = (Inr [], d)"
    using h by (simp add: parseToken_def)
  then show "parseBlocks e (before @ [HTML raw htext] @ after) options d
          = parseBlocks e (before @ after) options d"
    by (rule parseBlocks_skip_empty)
next
  assume "xmlParse e raw = Inr res"
  then show "parseHTML e raw =
        (if list_ex (imageThrows e) (tagsOf res ''img'') then []
         else tableBlocksOf e res
              @ List.map_filter (imageEntry e) (tagsOf res ''img'')
              @ List.map_filter (videoEntry e) (tagsOf res ''video''))"
    by (rule parseHTML_entries)
next
  assume "\<not> imageValid e img"
  then show "\<not> imageThrows e img" by (simp add: imageThrows_def)
next
  assume "\<not> imageValid e img"
  then have "imageEntry e img = None" by (simp add: imageEntry_def)
  then show "List.map_filter (imageEntry e) (imgsA @ [img] @ imgsB)
          = List.map_filter (imageEntry e) (imgsA @ imgsB)"
    by (rule map_filter_drop_None)
next
  assume "imageValid e img" "imageBuilt e img = Inr b"
  then have "imageEntry e img = Some b" by (simp add: imageEntry_def)
  then show "List.map_filter (imageEntry e) (imgsA @ [img] @ imgsB)
        = List.map_filter (imageEntry e) imgsA @ [b] @ List.map_filter (imageEntry e) imgsB"
    by (rule map_filter_keep)
next
  assume "videoBuilt e vid = Inl err"
  then have "videoEntry e vid = None" by (simp add: videoEntry_def)
  then show "List.map_filter (videoEntry e) (vidsA @ [vid] @ vidsB)
        = List.map_filter (videoEntry e) (vidsA @ vidsB)"
    by (rule map_filter_drop_None)
next
  assume "videoAccepted e vid" "videoBuilt e vid = Inr b"
  then have "videoEntry e vid = Some b" by (simp add: videoEntry_def)
  then show "List.map_filter (videoEntry e) (vidsA @ [vid] @ vidsB)
        = List.map_filter (videoEntry e) vidsA @ [b] @ List.map_filter (videoEntry e) vidsB"
    by (rule map_filter_keep)
qed

theorem html_island_failures_are_local_witness:
  \<open>parseBlocks (specEnv 10 demoXml)
     [Paragraph ''a'' [Text ''a'' ''a'' None], HTML ''<!-- broken'' ''<!-- broken'', Hr]
     \<lparr>listOpts = None\<rparr> 0
     = (Inr [Section ''a'', Divider], 0)
   \<and> parseHTML (specEnv 10 demoXml)
       ''<img src="a.png"/><img src="javascript:1"/><img src="b.png" alt="b"/>''
     = [ImageB ''a.png'' ''a.png'' None, ImageB ''b.png'' ''b'' None]
   \<and> parseHTML ((specEnv 10 demoXml)
         \<lparr>slackVideo := \<lambda>u p t a. if u = ''a.mp4'' then Inl ValidationError else specVideo u p t a\<rparr>)
         ''<video src="a.mp4"/><video src="b.mp4"/>''
     = [VideoB ''b.mp4'' ''b.mp4'' ''Video'' ''Video'']
   \<and> parseHTML (specEnv 10 demoXml) ''<video src="b.mp4"/>''
     = [VideoB ''b.mp4'' ''b.mp4'' ''Video'' ''Video'']\<close>
proof -
  let ?e = "specEnv 10 demoXml"
  let ?v = "(specEnv 10 demoXml)
         \<lparr>slackVideo := \<lambda>u p t a. if u = ''a.mp4'' then Inl ValidationError else specVideo u p t a\<rparr>"
  let ?a = "XElem [(''@_src'', XText ''a.png'')]"
  let ?j = "XElem [(''@_src'', XText ''javascript:1'')]"
  let ?b = "XElem [(''@_src'', XText ''b.png''), (''@_alt'', XText ''b'')]"
  let ?va = "XElem [(''@_src'', XText ''a.mp4'')]"
  let ?vb = "XElem [(''@_src'', XText ''b.mp4'')]"
  let ?imgs = "XElem [(''img'', XList [?a, ?j, ?b])]"
  let ?vids = "XElem [(''video'', XList [?va, ?vb])]"
  let ?vid = "XElem [(''video'', ?vb)]"
  note t = html_island_failures_are_local
  have p1: "xmlParse ?e ''<!-- broken'' = Inl ParseError"
    by (simp add: specEnv_def demoXml_def)
  have r1: "parseBlocks ?e [Paragraph ''a'' [Text ''a'' ''a'' None], Hr] \<lparr>listOpts = None\<rparr> 0
              = (Inr [Section ''a'', Divider], 0)"
    by code_simp
  have c1: "parseBlocks ?e
     [Paragraph ''a'' [Text ''a'' ''a'' None], HTML ''<!-- broken'' ''<!-- broken'', Hr]
     \<lparr>listOpts = None\<rparr> 0 = (Inr [Section ''a'', Divider], 0)"
    using t [where e = ?e and raw = "''<!-- broken''" and err = ParseError
               and before = "[Paragraph ''a'' [Text ''a'' ''a'' None]]" and after = "[Hr]"
               and htext = "''<!-- broken''" and options = "\<lparr>listOpts = None\<rparr>" and d = 0]
          p1 r1
    by simp
  have p2: \<open>xmlParse ?e ''<img src="a.png"/><img src="javascript:1"/><img src="b.png" alt="b"/>''
              = Inr ?imgs\<close>
    by (simp add: specEnv_def demoXml_def)
  have i2: "\<not> list_ex (imageThrows ?e) (tagsOf ?imgs ''img'')" by code_simp
  have e2: "tableBlocksOf ?e ?imgs @ List.map_filter (imageEntry ?e) (tagsOf ?imgs ''img'')
              @ List.map_filter (videoEntry ?e) (tagsOf ?imgs ''video'')
            = [ImageB ''a.png'' ''a.png'' None, ImageB ''b.png'' ''b'' None]"
    by code_simp
  have c2: \<open>parseHTML ?e ''<img src="a.png"/><img src="javascript:1"/><img src="b.png" alt="b"/>''
              = [ImageB ''a.png'' ''a.png'' None, ImageB ''b.png'' ''b'' None]\<close>
    using t [where e = ?e and res = ?imgs
               and raw = \<open>''<img src="a.png"/><img src="javascript:1"/><img src="b.png" alt="b"/>''\<close>]
          p2 i2 e2
    by simp
  have p3: \<open>xmlParse ?v ''<video src="a.mp4"/><video src="b.mp4"/>'' = Inr ?vids\<close>
    by (simp add: specEnv_def demoXml_def)
  have i3: "\<not> list_ex (imageThrows ?v) (tagsOf ?vids ''img'')" by code_simp
  have f3: "videoBuilt ?v ?va = Inl ValidationError" by code_simp
  have k3: "videoAccepted ?v ?vb \<and> videoBuilt ?v ?vb = Inr (VideoB ''b.mp4'' ''b.mp4'' ''Video'' ''Video'')"
    by code_simp
  have t3: "tableBlocksOf ?v ?vids = [] \<and> tagsOf ?vids ''img'' = []
            \<and> tagsOf ?vids ''video'' = [] @ [?va] @ [?vb]"
    by code_simp
  have d3: "List.map_filter (videoEntry ?v) ([] @ [?va] @ [?vb])
              = List.map_filter (videoEntry ?v) ([] @ [?vb])"
    using t [where e = ?v and vid = ?va and vidsA = "[]" and vidsB = "[?vb]"
               and err = ValidationError] f3
    by simp
  have g3: "List.map_filter (videoEntry ?v) ([] @ [?vb] @ [])
              = [] @ [VideoB ''b.mp4'' ''b.mp4'' ''Video'' ''Video''] @ []"
    using t [where e = ?v and vid = ?vb and vidsA = "[]" and vidsB = "[]"
               and b = "VideoB ''b.mp4'' ''b.mp4'' ''Video'' ''Video''"] k3
    by (simp add: List.map_filter_simps)
  have c3: \<open>parseHTML ?v ''<video src="a.mp4"/><video src="b.mp4"/>''
              = [VideoB ''b.mp4'' ''b.mp4'' ''Video'' ''Video'']\<close>
    using t [where e = ?v and res = ?vids
               and raw = \<open>''<video src="a.mp4"/><video src="b.mp4"/>''\<close>]
          p3 i3 t3 d3 g3
    by (simp add: List.map_filter_simps)
  have p4: \<open>xmlParse ?e ''<video src="b.mp4"/>'' = Inr ?vid\<close>
    by (simp add: specEnv_def demoXml_def)
  have i4: "\<not> list_ex (imageThrows ?e) (tagsOf ?vid ''img'')" by code_simp
  have e4: "tableBlocksOf ?e ?vid @ List.map_filter (imageEntry ?e) (tagsOf ?vid ''img'')
              @ List.map_filter (videoEntry ?e) (tagsOf ?vid ''video'')
            = [VideoB ''b.mp4'' ''b.mp4'' ''Video'' ''Video'']"
    by code_simp
  have c4: \<open>parseHTML ?e ''<video src="b.mp4"/>'' = [VideoB ''b.mp4'' ''b.mp4'' ''Video'' ''Video'']\<close>
    using t [where e = ?e and res = ?vid and raw = \<open>''<video src="b.mp4"/>''\<close>] p4 i4 e4
    by simp
  show ?thesis using c1 c2 c3 c4 by simp
qed

section \<open>Blockquotes\<close>

lemma quoteElementsFrom_separated:
  "list_all isNonEmptyParagraph tokens \<Longrightarrow> n = i + length tokens
     \<Longrightarrow> quoteElementsFrom e n i tokens
           = separated (map (\<lambda>t. tokensToRichTextElements e (paragraphTokens t)) tokens)"
proof (induction tokens arbitrary: i rule: induct_list012)
  case 1
  then show ?case by simp
next
  case (2 x)
  then show ?case
    by (cases x) (auto simp: isNonEmptyParagraph_def paragraphTokens_def)
next
  case (3 x y zs)
  have "quoteElementsFrom e n (i + 1) (y # zs)
          = separated (map (\<lambda>t. tokensToRichTextElements e (paragraphTokens t)) (y # zs))"
    using 3 by simp
  then show ?case using 3(3,4)
    by (cases x) (auto simp: isNonEmptyParagraph_def paragraphTokens_def)
qed

lemma addQuotePrefix_other: "\<not> isSectionBlock b \<Longrightarrow> addQuotePrefix b = b"
  by (cases b) (auto simp: addQuotePrefix_def isSectionBlock_def)

text \<open>
  C4, amended. If every child of a blockquote is a paragraph or a bare-text token and
  the trial parse of the paragraphs yields no File block, the builder returns one
  rich-text-quote block with the rich elements of the children when there is at least
  one such element, and no block when there is none; for children that are all
  non-empty paragraphs the elements are those of the paragraphs with one newline
  element between two of them. Otherwise it returns the per-child block sequence in
  which the text of every Section with non-empty text is prefixed with \<^verbatim>\<open>"> "\<close> and
  has \<^verbatim>\<open>"> "\<close> after each newline; a Section with empty text and every other block
  pass through unmodified.
\<close>

theorem blockquote_builder:
  "(list_all isParagraphOrText tokens \<longrightarrow> testBlocks e tokens d = (Inr trial, d')
      \<longrightarrow> \<not> list_ex isFileBlock trial
      \<longrightarrow> parseBlockquote e tokens d
            = (Inr (if quoteElementsFrom e (length tokens) 0 tokens = [] then []
                    else [RichTextQuote (quoteElementsFrom e (length tokens) 0 tokens)]), d))
   \<and> (list_all isNonEmptyParagraph tokens
      \<longrightarrow> quoteElementsFrom e (length tokens) 0 tokens
            = separated (map (\<lambda>t. tokensToRichTextElements e (paragraphTokens t)) tokens))
   \<and> ((\<not> list_all isParagraphOrText tokens
        \<or> (testBlocks e tokens d = (Inr trial, d') \<and> list_ex isFileBlock trial))
      \<longrightarrow> quoteBlocks e tokens d = (Inr blocks, d'')
      \<longrightarrow> parseBlockquote e tokens d = (Inr (map addQuotePrefix blocks), d))
   \<and> (s \<noteq> [] \<longrightarrow> addQuotePrefix (Section s)
         = Section (''> '' @ concat (map (\<lambda>c. if c = CHR 0x0A then [CHR 0x0A] @ ''> '' else [c]) s)))
   \<and> addQuotePrefix (Section []) = Section []
   \<and> (\<not> isSectionBlock b \<longrightarrow> addQuotePrefix b = b)"
proof (intro conjI impI)
  assume "list_all isParagraphOrText tokens" "testBlocks e tokens d = (Inr trial, d')"
    "\<not> list_ex isFileBlock trial"
  then show "parseBlockquote e tokens d
            = (Inr (if quoteElementsFrom e (length tokens) 0 tokens = [] then []
                    else [RichTextQuote (quoteElementsFrom e (length tokens) 0 tokens)]), d)"
    using testBlocks_counterD [of e tokens d "Inr trial" d'] by (simp add: Let_def)
next
  assume "list_all isNonEmptyParagraph tokens"
  then show "quoteElementsFrom e (length tokens) 0 tokens
            = separated (map (\<lambda>t. tokensToRichTextElements e (paragraphTokens t)) tokens)"
    by (intro quoteElementsFrom_separated) simp_all
next
  assume c: "\<not> list_all isParagraphOrText tokens
        \<or> (testBlocks e tokens d = (Inr trial, d') \<and> list_ex isFileBlock trial)"
    and q: "quoteBlocks e tokens d = (Inr blocks, d'')"
  have "d'' = d" using q by (rule parseBlockquote_counterD(2))
  moreover have "testBlocks e tokens d = (Inr trial, d') \<Longrightarrow> d' = d"
    by (rule testBlocks_counterD)
  ultimately show "parseBlockquote e tokens d = (Inr (map addQuotePrefix blocks), d)"
    using c q by (auto simp: Let_def)
next
  assume "s \<noteq> []"
  then show "addQuotePrefix (Section s)
         = Section (''> '' @ concat (map (\<lambda>c. if c = CHR 0x0A then [CHR 0x0A] @ ''> '' else [c]) s))"
    by (simp add: addQuotePrefix_def)
next
  show "addQuotePrefix (Section []) = Section []" by (simp add: addQuotePrefix_def)
next
  assume "\<not> isSectionBlock b"
  then show "addQuotePrefix b = b" by (rule addQuotePrefix_other)
qed

theorem blockquote_builder_witness:
  "parseBlockquote (specEnv 10 noXml)
     [Paragraph ''a'' [Text ''a'' ''a'' None], Paragraph ''**b**'' [Strong ''b'' [Text ''b'' ''b'' None]]] 0
     = (Inr [RichTextQuote [TextEl ''a'' None, TextEl [CHR 0x0A] None, TextEl ''b'' (Some Bold)]], 0)
   \<and> parseBlockquote (specEnv 10 noXml)
       [Paragraph ''a b'' [Text ''a'' ''a'' None, Text [CHR 0x0A] [CHR 0x0A] None, Text ''b'' ''b'' None],
        Code ''x''] 0
     = (Inr [Section (''> a'' @ [CHR 0x0A] @ ''> b''), RichTextCode ''x''], 0)"
proof -
  let ?e = "specEnv 10 noXml"
  let ?s = "[Paragraph ''a'' [Text ''a'' ''a'' None],
             Paragraph ''**b**'' [Strong ''b'' [Text ''b'' ''b'' None]]]"
  let ?c = "[Paragraph ''a b'' [Text ''a'' ''a'' None, Text [CHR 0x0A] [CHR 0x0A] None, Text ''b'' ''b'' None],
             Code ''x'']"
  note t = blockquote_builder
  have s1: "list_all isParagraphOrText ?s" by (simp add: isParagraphOrText_def)
  have s2: "testBlocks ?e ?s 0 = (Inr [Section ''a'', Section ''*b*''], 0)" by code_simp
  have s3: "\<not> list_ex isFileBlock [Section ''a'', Section ''*b*'']" by (simp add: isFileBlock_def)
  have s4: "list_all isNonEmptyParagraph ?s" by (simp add: isNonEmptyParagraph_def)
  have s5: "separated (map (\<lambda>t. tokensToRichTextElements ?e (paragraphTokens t)) ?s)
              = [TextEl ''a'' None, TextEl [CHR 0x0A] None, TextEl ''b'' (Some Bold)]"
    by (simp add: paragraphTokens_def childrenText_def)
  have q: "quoteElementsFrom ?e (length ?s) 0 ?s
             = [TextEl ''a'' None, TextEl [CHR 0x0A] None, TextEl ''b'' (Some Bold)]"
    using t [where e = ?e and tokens = ?s] s4 s5 by simp
  have first: "parseBlockquote ?e ?s 0
     = (Inr [RichTextQuote [TextEl ''a'' None, TextEl [CHR 0x0A] None, TextEl ''b'' (Some Bold)]], 0)"
    using t [where e = ?e and tokens = ?s and d = 0 and d' = 0
               and trial = "[Section ''a'', Section ''*b*'']"] s1 s2 s3 q
    by simp
  have c1: "\<not> list_all isParagraphOrText ?c" by (simp add: isParagraphOrText_def)
  have c2: "quoteBlocks ?e ?c 0
              = (Inr [Section (''a'' @ [CHR 0x0A] @ ''b''), RichTextCode ''x''], 0)"
    by code_simp
  have c3: "addQuotePrefix (Section (''a'' @ [CHR 0x0A] @ ''b'')) = Section (''> a'' @ [CHR 0x0A] @ ''> b'')"
    using t [where s = "''a'' @ [CHR 0x0A] @ ''b''"] by simp
  have c4: "addQuotePrefix (RichTextCode ''x'') = RichTextCode ''x''"
    using t [where b = "RichTextCode ''x''"] by (simp add: isSectionBlock_def)
  have second: "parseBlockquote ?e ?c 0
     = (Inr [Section (''> a'' @ [CHR 0x0A] @ ''> b''), RichTextCode ''x''], 0)"
    using t [where e = ?e and tokens = ?c and d = 0 and d'' = 0
               and blocks = "[Section (''a'' @ [CHR 0x0A] @ ''b''), RichTextCode ''x'']"] c1 c2 c3 c4
    by simp
  show ?thesis using first second by simp
qed

text \<open>
  The claim as stated fails for a blockquote without children (the markdown line
  \<^verbatim>\<open>>\<close>): every child is a paragraph, the trial parse yields no File block, and
  the builder returns no block.
\<close>

theorem blockquote_builder_counterexample:
  "list_all isParagraphOrText []
   \<and> testBlocks (specEnv 10 noXml) [] 0 = (Inr [], 0)
   \<and> \<not> list_ex isFileBlock []
   \<and> parseBlockquote (specEnv 10 noXml) [] 0 = (Inr [], 0)"
  by simp

end
